theory Spec2Isabelle
  imports Main "HOL-Library.Sublist" "HOL-Library.Char_ord" "HOL-Library.List_Lexorder"
    "HOL-Library.Multiset"
begin

section \<open>Python strings\<close>

text \<open>
  A Python \<open>str\<close> is modelled as a \<open>string\<close>, one \<open>char\<close> per code point; the model
  therefore covers the code points below 256. \<open>isspace\<close> lists the code points below 256
  for which \<open>str.isspace\<close> holds; the regular expression class \<open>\s\<close> of a \<open>str\<close>
  pattern matches the same characters.
\<close>

definition isspace :: "char \<Rightarrow> bool" where
  "isspace c \<longleftrightarrow> c \<in> {CHR 0x09, CHR 0x0A, CHR 0x0B, CHR 0x0C, CHR 0x0D, CHR 0x1C,
     CHR 0x1D, CHR 0x1E, CHR 0x1F, CHR 0x20, CHR 0x85, CHR 0xA0}"

text \<open>\<open>s.strip()\<close>\<close>

definition strip :: "string \<Rightarrow> string" where
  "strip s = rev (dropWhile isspace (rev (dropWhile isspace s)))"

text \<open>\<open>s.replace(old, new)\<close> for a non-empty \<open>old\<close>: leftmost occurrences, not overlapping.\<close>

function replace :: "string \<Rightarrow> string \<Rightarrow> string \<Rightarrow> string" where
  "replace old new s =
     (if old = [] \<or> s = [] then s
      else if prefix old s then new @ replace old new (drop (length old) s)
      else hd s # replace old new (tl s))"
  by pat_completeness auto
termination
  by (relation "measure (\<lambda>(old, new, s). length s)") auto

declare replace.simps [simp del]

text \<open>\<open>re.sub(r'\s+', ' ', s)\<close>: every maximal run of whitespace becomes one space.\<close>

function re_sub_spaces :: "string \<Rightarrow> string" where
  "re_sub_spaces [] = []"
| "re_sub_spaces (c # cs) =
     (if isspace c then CHR '' '' # re_sub_spaces (dropWhile isspace cs)
      else c # re_sub_spaces cs)"
  by pat_completeness auto
termination
  by (relation "measure length") (auto simp: length_dropWhile_le less_Suc_eq_le)

section \<open>Normalisation of cell text\<close>

text \<open>
  \<open>clean_text_for_csv\<close> (nested in \<open>save_to_csv\<close>). The argument is \<open>None\<close> or a
  \<open>str\<close>, on which \<open>str(text)\<close> is the identity.
\<close>

definition clean_text_for_csv :: "string option \<Rightarrow> string" where
  "clean_text_for_csv text =
     (case text of
        None \<Rightarrow> []
      | Some t \<Rightarrow>
          strip (re_sub_spaces
            (replace [CHR 0x0D] '' ''
              (replace [CHR 0x0A] '' ''
                (replace [CHR 0x0D, CHR 0x0A] '' '' t)))))"

text \<open>
  The specification's reading of normalisation: the words of the text (its maximal runs
  of characters that are not whitespace, \<open>s.split()\<close>) joined by single spaces.
\<close>

function split_ws :: "string \<Rightarrow> string list" where
  "split_ws s =
     (case dropWhile isspace s of
        [] \<Rightarrow> []
      | c # cs \<Rightarrow> (c # takeWhile (\<lambda>x. \<not> isspace x) cs)
                  # split_ws (dropWhile (\<lambda>x. \<not> isspace x) cs))"
  by pat_completeness auto
termination
proof (relation "measure length", simp, goal_cases)
  case (1 s c cs)
  have "length (dropWhile (\<lambda>x. \<not> isspace x) cs) \<le> length cs"
    by (rule length_dropWhile_le)
  moreover have "length (c # cs) \<le> length s"
    using 1 length_dropWhile_le [of isspace s] by simp
  ultimately show ?case by simp
qed

declare split_ws.simps [simp del]

fun join_spaces :: "string list \<Rightarrow> string" where
  "join_spaces [] = []"
| "join_spaces [w] = w"
| "join_spaces (w # ws) = w @ CHR '' '' # join_spaces ws"

definition normalize_spec :: "string \<Rightarrow> string" where
  "normalize_spec s = join_spaces (split_ws s)"

section \<open>Dictionaries\<close>

text \<open>
  A Python \<open>dict\<close> keeps its keys in insertion order, and \<open>items()\<close> iterates in that
  order: it is an association list with distinct keys. \<open>d[k] = v\<close> replaces the value of
  a key that is present, in place, and appends a key that is absent.
\<close>

fun dict_set :: "'k \<Rightarrow> 'v \<Rightarrow> ('k \<times> 'v) list \<Rightarrow> ('k \<times> 'v) list" where
  "dict_set k v [] = [(k, v)]"
| "dict_set k v ((k', v') # d) =
     (if k' = k then (k, v) # d else (k', v') # dict_set k v d)"

definition dict_keys :: "('k \<times> 'v) list \<Rightarrow> 'k set" where
  "dict_keys d = set (map fst d)"

section \<open>Product records and the CSV export\<close>

text \<open>
  The product dictionary built by \<open>extract_product_data\<close>. A scalar field is \<open>None\<close>
  or a string; \<open>None\<close> also stands for a missing key, which \<open>product.get(key, '')\<close>
  reads as the empty string: \<open>clean_text_for_csv\<close> maps both to the empty string.
\<close>

record product_data =
  product_code :: "string option"
  product_name :: "string option"
  model_number :: "string option"
  description :: "string option"
  price :: "string option"
  currency :: "string option"
  specifications :: "(string \<times> string) list"
  availability :: "string option"
  url :: "string option"

text \<open>A row of \<open>save_to_csv\<close>: column name to cell; a cell is \<open>None\<close> or a string.\<close>

type_synonym row = "(string \<times> string option) list"

definition standard_fields :: "string list" where
  "standard_fields = [''Product Code'', ''Product Name'', ''Model Number'', ''Description'',
     ''Price'', ''Currency'', ''Availability'', ''URL'']"

text \<open>The dictionary literal that starts a row; \<open>URL\<close> is not cleaned.\<close>

definition initial_row :: "product_data \<Rightarrow> row" where
  "initial_row product =
     [(''Product Code'', Some (clean_text_for_csv (product_code product))),
      (''Product Name'', Some (clean_text_for_csv (product_name product))),
      (''Model Number'', Some (clean_text_for_csv (model_number product))),
      (''Description'', Some (clean_text_for_csv (description product))),
      (''Price'', Some (clean_text_for_csv (price product))),
      (''Currency'', Some (clean_text_for_csv (currency product))),
      (''Availability'', Some (clean_text_for_csv (availability product))),
      (''URL'', url product)]"

text \<open>The body of \<open>for key, value in specs.items()\<close>.\<close>

definition add_spec :: "string \<times> string \<Rightarrow> row \<Rightarrow> row" where
  "add_spec kv row =
     (let clean_key = clean_text_for_csv (Some (fst kv)) in
      if clean_key \<noteq> [] then
        (case map_of row clean_key of
           None \<Rightarrow> dict_set clean_key (Some (clean_text_for_csv (Some (snd kv)))) row
         | Some cell \<Rightarrow>
             dict_set clean_key
               (Some (clean_text_for_csv cell @ ''; '' @ clean_text_for_csv (Some (snd kv)))) row)
      else row)"

definition build_row :: "product_data \<Rightarrow> row" where
  "build_row product = fold add_spec (specifications product) (initial_row product)"

text \<open>\<open>all_keys\<close> is a Python set; \<open>sorted\<close> of its elements does not depend on its order.\<close>

definition all_keys :: "row list \<Rightarrow> string set" where
  "all_keys rows = set (concat (map (map fst) rows))"

definition fieldnames :: "row list \<Rightarrow> string list" where
  "fieldnames rows =
     filter (\<lambda>k. k \<in> all_keys rows) standard_fields
     @ sorted_list_of_set (Set.filter (\<lambda>k. k \<notin> set standard_fields) (all_keys rows))"

definition cleaned_row :: "string list \<Rightarrow> row \<Rightarrow> string option list" where
  "cleaned_row names row =
     map (\<lambda>key. case map_of row key of Some cell \<Rightarrow> cell | None \<Rightarrow> Some []) names"

text \<open>
  What \<open>save_to_csv\<close> hands to the CSV writer: the file name, the header and one list of
  cells per row. The argument is one product dictionary or a list of them.
\<close>

record csv_file =
  file_name :: string
  header :: "string list"
  records :: "string option list list"

datatype csv_input = One product_data | Many "product_data list"

definition default_filename :: "product_data list \<Rightarrow> string \<Rightarrow> string" where
  "default_filename products stamp =
     (case products of
        [p] \<Rightarrow> (case product_code p of
                  Some (c # cs) \<Rightarrow> ''product_'' @ (c # cs) @ ''.csv''
                | _ \<Rightarrow> ''products_'' @ stamp @ ''.csv'')
      | _ \<Rightarrow> ''products_'' @ stamp @ ''.csv'')"

text \<open>
  \<open>save_to_csv\<close>: the result \<open>None\<close> is the \<open>return None\<close> of the source, the value it
  also returns when writing fails. \<open>stamp\<close> is the text of \<open>int(time.time())\<close>. Opening
  and writing the file are left to the caller of the model.
\<close>

definition save_to_csv :: "csv_input \<Rightarrow> string option \<Rightarrow> string \<Rightarrow> csv_file option" where
  "save_to_csv product_data filename stamp =
     (let products = (case product_data of One p \<Rightarrow> [p] | Many ps \<Rightarrow> ps) in
      if products = [] then None
      else
        let name = (case filename of
                      Some (c # cs) \<Rightarrow> c # cs
                    | _ \<Rightarrow> default_filename products stamp);
            rows = map build_row products;
            names = fieldnames rows
        in Some \<lparr>file_name = name, header = names, records = map (cleaned_row names) rows\<rparr>)"

text \<open>
  The specification columns of a list of products, read off the input: the cleaned
  specification keys that are not empty and are not the name of a standard column.
\<close>

definition spec_columns :: "product_data list \<Rightarrow> string set" where
  "spec_columns products =
     set (filter (\<lambda>k. k \<noteq> [] \<and> k \<notin> set standard_fields)
       (map (\<lambda>kv. clean_text_for_csv (Some (fst kv)))
         (concat (map specifications products))))"

section \<open>Example inputs of the export\<close>

definition c6_record :: product_data where
  "c6_record = \<lparr>product_code = None, product_name = None, model_number = None,
     description = None, price = None, currency = None,
     specifications = [(''URL'', ''x'')], availability = None, url = Some ''a  b''\<rparr>"

definition c5_records :: "product_data list" where
  "c5_records =
     [\<lparr>product_code = Some ''1'', product_name = None, model_number = None,
       description = None, price = None, currency = None,
       specifications = [(''Purity'', ''99%'')], availability = None, url = None\<rparr>,
      \<lparr>product_code = Some ''2'', product_name = None, model_number = None,
       description = None, price = None, currency = None,
       specifications = [(''Color'', ''clear'')], availability = None, url = None\<rparr>]"

text \<open>
  A record with two specifications: the key \<open>Lot  size\<close>, written with two spaces, and the
  key \<open>Price\<close>, which is also the name of a standard column.
\<close>

definition lot_record :: product_data where
  "lot_record = \<lparr>product_code = Some ''7'', product_name = None, model_number = None,
     description = None, price = Some ''12.50'', currency = None,
     specifications = [(''Lot  size'', ''10''), (''Price'', ''12.50 per lot'')],
     availability = None, url = None\<rparr>"

section \<open>More string operations\<close>

text \<open>\<open>s.lower()\<close> on code points below 256: A to Z, and the capital letters of Latin-1.\<close>

definition lower_char :: "char \<Rightarrow> char" where
  "lower_char c =
     (let n = (of_char c :: nat) in
      if (65 \<le> n \<and> n \<le> 90) \<or> (192 \<le> n \<and> n \<le> 222 \<and> n \<noteq> 215)
      then char_of (n + 32) else c)"

definition lower :: "string \<Rightarrow> string" where
  "lower s = map lower_char s"

text \<open>\<open>sub in s\<close> for strings.\<close>

fun contains :: "string \<Rightarrow> string \<Rightarrow> bool" where
  "contains sub [] = (sub = [])"
| "contains sub (c # cs) = (prefix sub (c # cs) \<or> contains sub cs)"

text \<open>
  \<open>s.split(sep)\<close> for a non-empty \<open>sep\<close>: the pieces between the occurrences of \<open>sep\<close>,
  found from the left and not overlapping. \<open>acc\<close> holds the current piece, reversed.
\<close>

function split_acc :: "string \<Rightarrow> string \<Rightarrow> string \<Rightarrow> string list" where
  "split_acc sep acc s =
     (if s = [] then [rev acc]
      else if sep \<noteq> [] \<and> prefix sep s
        then rev acc # split_acc sep [] (drop (length sep) s)
      else split_acc sep (hd s # acc) (tl s))"
  by pat_completeness auto
termination
  by (relation "measure (\<lambda>(sep, acc, s). length s)") auto

declare split_acc.simps [simp del]

definition split :: "string \<Rightarrow> string \<Rightarrow> string list" where
  "split sep s = split_acc sep [] s"

text \<open>\<open>s.split(sep, 1)\<close>: at most one split, at the first occurrence of \<open>sep\<close>.\<close>

fun split1_acc :: "string \<Rightarrow> string \<Rightarrow> string \<Rightarrow> string list" where
  "split1_acc sep acc [] = [rev acc]"
| "split1_acc sep acc (c # cs) =
     (if sep \<noteq> [] \<and> prefix sep (c # cs) then [rev acc, drop (length sep) (c # cs)]
      else split1_acc sep (c # acc) cs)"

definition split1 :: "string \<Rightarrow> string \<Rightarrow> string list" where
  "split1 sep s = split1_acc sep [] s"

definition endswith :: "string \<Rightarrow> string \<Rightarrow> bool" where
  "endswith s suffix_text = suffix suffix_text s"

section \<open>The rendered page\<close>

text \<open>
  The page is known to the scraper through the answers of the browser to its queries.
  An element has a tag name, its visible text, the answer to every XPath query made
  relative to it (\<open>find_elements(By.XPATH, selector)\<close>, in document order), the outcome
  of activating it (\<open>click()\<close>, or the scripted click tried when that raises), the value
  \<open>json.loads\<close> gives for its \<open>innerHTML\<close> (\<open>None\<close> when that raises) and its attributes
  (what the attribute script of the last strategy returns).

  The answers are those of the page as it is once revealed: a click does not change
  them. Reading the text, the tag or the attributes of an element does not raise.
\<close>

datatype json =
    JNull
  | JBool bool
  | JNumber string \<comment> \<open>a number, held as the text \<open>str(value)\<close> gives for it\<close>
  | JString string
  | JArray "json list"
  | JObject "(string \<times> json) list" \<comment> \<open>the items of the dictionary, in order\<close>

datatype element =
  Element (tag_name: string) (elem_text: string) (query: "string \<Rightarrow> element list")
    (activates: bool) (inner_json: "json option") (attributes: "(string \<times> string) list")

record driver =
  page :: "string \<Rightarrow> element list"
  current_url :: string

text \<open>\<open>find_element\<close>: the first match; \<open>None\<close> is \<open>NoSuchElementException\<close>.\<close>

definition find_element :: "(string \<Rightarrow> element list) \<Rightarrow> string \<Rightarrow> element option" where
  "find_element q selector = (case q selector of [] \<Rightarrow> None | e # _ \<Rightarrow> Some e)"

text \<open>The first selector of a list that finds an element, with that element.\<close>

fun first_found :: "(string \<Rightarrow> element list) \<Rightarrow> string list \<Rightarrow> element option" where
  "first_found q [] = None"
| "first_found q (selector # selectors) =
     (case find_element q selector of
        Some e \<Rightarrow> Some e
      | None \<Rightarrow> first_found q selectors)"

type_synonym specs = "(string \<times> string) list"

section \<open>Scalar fields\<close>

definition title_selectors :: "string list" where
  "title_selectors =
     [''//h1[contains(@class, 'product-title')]'',
      ''//h1[contains(@class, 'product-name')]'',
      ''//h1[contains(@class, 'title')]'',
      ''//h1'',
      ''//*[contains(@class, 'product-title')]'']"

definition sku_selectors :: "string list" where
  "sku_selectors =
     [''//*[contains(text(), 'SKU')]/following-sibling::*'',
      ''//*[contains(text(), 'Product Code')]/following-sibling::*'',
      ''//*[contains(text(), 'Catalog Number')]/following-sibling::*'',
      ''//*[contains(@class, 'sku')]'',
      ''//*[contains(@class, 'product-code')]'',
      ''//*[contains(@class, 'catalog-number')]'']"

definition price_selectors :: "string list" where
  "price_selectors =
     [''//*[contains(@class, 'price')]'',
      ''//*[contains(@class, 'product-price')]'',
      ''//*[contains(@data-testid, 'price')]'',
      ''//span[contains(@class, 'price')]'']"

definition is_digit :: "char \<Rightarrow> bool" where
  "is_digit c \<longleftrightarrow> CHR ''0'' \<le> c \<and> c \<le> CHR ''9''"

definition is_upper :: "char \<Rightarrow> bool" where
  "is_upper c \<longleftrightarrow> CHR ''A'' \<le> c \<and> c \<le> CHR ''Z''"

text \<open>\<open>re.search(r'[\d,]+\.?\d*', s)\<close>: the leftmost match, each part as long as it can be.\<close>

fun search_price :: "string \<Rightarrow> string option" where
  "search_price [] = None"
| "search_price (c # cs) =
     (if is_digit c \<or> c = CHR '','' then
        (let run = takeWhile (\<lambda>x. is_digit x \<or> x = CHR '','') (c # cs);
             rest = dropWhile (\<lambda>x. is_digit x \<or> x = CHR '','') (c # cs)
         in Some (run @ (case rest of
                           d # r \<Rightarrow> if d = CHR ''.'' then d # takeWhile is_digit r else []
                         | [] \<Rightarrow> [])))
      else search_price cs)"

text \<open>
  \<open>re.search\<close> for three capital letters A to Z, a dollar sign, a euro sign or a pound
  sign: the leftmost match. The euro sign is a code point above 255 and does not occur
  in a string of the model.
\<close>

fun search_currency :: "string \<Rightarrow> string option" where
  "search_currency [] = None"
| "search_currency (c # cs) =
     (if is_upper c \<and> length cs \<ge> 2 \<and> is_upper (cs ! 0) \<and> is_upper (cs ! 1)
        then Some [c, cs ! 0, cs ! 1]
      else if c = CHR ''$'' then Some [c]
      else if c = CHR 0xA3 then Some [c]
      else search_currency cs)"

definition desc_selectors :: "string list" where
  "desc_selectors =
     [''//div[contains(@class, 'no-select-spec')]'',
      ''//div[@class='no-select-spec collapsed']'',
      ''//div[contains(@class, 'no-select-spec') and contains(@class, 'collapsed')]'']"

definition fallback_selectors :: "string list" where
  "fallback_selectors =
     [''//div[contains(@class, 'no-select-spec')]//div[contains(@class, 'd-block')]'',
      ''//div[contains(@class, 'no-select-spec')]//p'',
      ''//div[contains(@class, 'product-description')]'',
      ''//div[contains(@class, 'description')]'',
      ''//div[contains(@class, 'product-details')]//p'']"

text \<open>The first selector whose element has a text of more than 20 characters.\<close>

fun find_description :: "(string \<Rightarrow> element list) \<Rightarrow> string list \<Rightarrow> string option" where
  "find_description q [] = None"
| "find_description q (selector # selectors) =
     (case find_element q selector of
        None \<Rightarrow> find_description q selectors
      | Some e \<Rightarrow>
          (let desc_text = strip (elem_text e) in
           if desc_text \<noteq> [] \<and> length desc_text > 20 then Some desc_text
           else find_description q selectors))"

definition availability_selectors :: "string list" where
  "availability_selectors =
     [''//*[contains(@class, 'availability')]'',
      ''//*[contains(@class, 'stock')]'',
      ''//*[contains(text(), 'In Stock')] | //*[contains(text(), 'Out of Stock')]'']"

text \<open>
  The record as it stands when the extraction of specifications begins: name, code,
  price, currency and description. The clicks that expand the description section are
  effects on the browser only.
\<close>

definition extract_scalars :: "driver \<Rightarrow> product_data" where
  "extract_scalars d =
     (let price_text = map_option (\<lambda>e. strip (elem_text e)) (first_found (page d) price_selectors);
          desc = (case find_description (page d) desc_selectors of
                    Some t \<Rightarrow> Some t
                  | None \<Rightarrow> find_description (page d) fallback_selectors)
      in \<lparr>product_code = map_option (\<lambda>e. strip (elem_text e)) (first_found (page d) sku_selectors),
          product_name = map_option (\<lambda>e. strip (elem_text e)) (first_found (page d) title_selectors),
          model_number = None,
          description = desc,
          price = (case price_text of
                     None \<Rightarrow> None
                   | Some t \<Rightarrow> map_option (replace '','' []) (search_price t)),
          currency = (case price_text of None \<Rightarrow> None | Some t \<Rightarrow> search_currency t),
          specifications = [],
          availability = None,
          url = Some (current_url d)\<rparr>)"

section \<open>The extraction strategies\<close>

text \<open>
  Each strategy takes the specification dictionary as it stands and returns it updated.
  The two cells of a table row, stripped; \<open>None\<close> when the row has fewer than two cells.
\<close>

definition row_cells :: "element \<Rightarrow> (string \<times> string) option" where
  "row_cells row =
     (case query row ''.//td | .//th'' of
        c0 # c1 # _ \<Rightarrow> Some (strip (elem_text c0), strip (elem_text c1))
      | _ \<Rightarrow> None)"

subsection \<open>Method 0: the \<open>ul.spec-table\<close> list\<close>

definition spec_table_item :: "element \<Rightarrow> specs \<Rightarrow> specs" where
  "spec_table_item li specs =
     (case query li ''.//div[contains(@class, 'name-col')]'' of
        [] \<Rightarrow> specs
      | name_col # _ \<Rightarrow>
          (case query li ''.//div[contains(@class, 'value-col')]'' of
             [] \<Rightarrow> specs
           | value_col # _ \<Rightarrow>
               (let key = strip (elem_text name_col);
                    val = strip (elem_text value_col);
                    key = (if endswith key '':'' then strip (butlast key) else key)
                in if key \<noteq> [] \<and> val \<noteq> [] then dict_set key val specs else specs)))"

fun spec_table_uls :: "element list \<Rightarrow> specs \<Rightarrow> specs" where
  "spec_table_uls [] specs = specs"
| "spec_table_uls (ul # uls) specs =
     (let specs' = fold spec_table_item (query ul ''.//li'') specs
      in if specs' \<noteq> [] then specs' else spec_table_uls uls specs')"

definition spec_table_xpath :: string where
  "spec_table_xpath =
        ''//ul[contains(@class, 'spec-table')] | ''
        @ ''//ul[@class='spec-table text-break'] | ''
        @ ''//ul[contains(@class, 'spec-table') and contains(@class, 'text-break')]''"

definition method0 :: "driver \<Rightarrow> specs \<Rightarrow> specs" where
  "method0 d specs =
     spec_table_uls
       (page d spec_table_xpath)
       specs"

subsection \<open>The labelled section\<close>

definition spec_section_selectors :: "string list" where
  "spec_section_selectors =
     [''//*[contains(text(), 'Product Details & Documents and Specifications')]'',
      ''//*[contains(text(), 'Product Details') and contains(text(), 'Specifications')]'',
      ''//*[contains(text(), 'Specifications')]/ancestor::*[contains(@class, 'accordion') or contains(@class, 'panel') or contains(@class, 'tab')]'',
      ''//*[contains(text(), 'Product Details')]/ancestor::*[contains(@class, 'accordion') or contains(@class, 'panel')]'',
      ''//*[contains(text(), 'Specifications')]/parent::*'',
      ''//button[contains(text(), 'Product Details')] | //a[contains(text(), 'Product Details')]'',
      ''//button[contains(text(), 'Specifications')] | //a[contains(text(), 'Specifications')]'']"

definition section_table_row :: "element \<Rightarrow> specs \<Rightarrow> specs" where
  "section_table_row row specs =
     (case row_cells row of
        None \<Rightarrow> specs
      | Some (key, val) \<Rightarrow>
          if key \<noteq> [] \<and> val \<noteq> []
             \<and> lower key \<notin> set [''property'', ''value'', ''specification'']
          then dict_set key val specs else specs)"

definition dl_pairs :: "element \<Rightarrow> specs \<Rightarrow> specs" where
  "dl_pairs dl specs =
     fold (\<lambda>(dt, dd) specs.
             let key = strip (elem_text dt); val = strip (elem_text dd)
             in if key \<noteq> [] \<and> val \<noteq> [] then dict_set key val specs else specs)
       (zip (query dl ''.//dt'') (query dl ''.//dd'')) specs"

text \<open>A line of the section text: exactly one colon, or else exactly one \<open> - \<close>.\<close>

definition section_line :: "string \<Rightarrow> specs \<Rightarrow> specs" where
  "section_line line0 specs =
     (let line = strip line0 in
      if contains '':'' line \<and> length (split '':'' line) = 2 then
        (case split1 '':'' line of
           [p0, p1] \<Rightarrow>
             (let key = strip p0; val = strip p1
              in if key \<noteq> [] \<and> val \<noteq> [] \<and> 2 < length key \<and> length key < 80
                 then dict_set key val specs else specs)
         | _ \<Rightarrow> specs)
      else if contains '' - '' line \<and> length (split '' - '' line) = 2 then
        (case split1 '' - '' line of
           [p0, p1] \<Rightarrow>
             (let key = strip p0; val = strip p1
              in if key \<noteq> [] \<and> val \<noteq> [] \<and> 2 < length key \<and> length key < 80
                 then dict_set key val specs else specs)
         | _ \<Rightarrow> specs)
      else specs)"

text \<open>The container of the section was found: tables, then lists, then text lines.\<close>

definition section_parent :: "element \<Rightarrow> specs \<Rightarrow> specs" where
  "section_parent parent specs =
     (let s1 = fold (\<lambda>table. fold section_table_row (query table ''.//tr''))
                 (query parent ''.//table'') specs;
          s2 = (if s1 = [] then fold dl_pairs (query parent ''.//dl'') s1 else s1);
          s3 = (if s2 = [] then fold section_line (split [CHR 0x0A] (elem_text parent)) s2
                else s2)
      in s3)"

text \<open>A line with a colon, split at the first colon.\<close>

definition colon_line :: "string \<Rightarrow> specs \<Rightarrow> specs" where
  "colon_line line specs =
     (if contains '':'' line then
        (case split1 '':'' line of
           [p0, p1] \<Rightarrow>
             (let key = strip p0; val = strip p1
              in if key \<noteq> [] \<and> val \<noteq> [] then dict_set key val specs else specs)
         | _ \<Rightarrow> specs)
      else specs)"

text \<open>No container: the first five following siblings of the section element.\<close>

definition section_siblings :: "element \<Rightarrow> specs \<Rightarrow> specs" where
  "section_siblings e specs =
     fold (\<lambda>sibling specs.
             let t = strip (elem_text sibling)
             in if t \<noteq> [] then fold colon_line (split [CHR 0x0A] t) specs else specs)
       (take 5 (query e ''./following-sibling::*'')) specs"

text \<open>
  The loop over the section selectors. The state is the dictionary and the local
  variable \<open>spec_section_found\<close>, which is \<open>None\<close> while it has not been assigned. An
  element that is a button or a link and cannot be activated ends the iteration
  before the variable is assigned.
\<close>

fun section_loop :: "driver \<Rightarrow> string list \<Rightarrow> specs \<times> bool option \<Rightarrow> specs \<times> bool option" where
  "section_loop d [] st = st"
| "section_loop d (selector # selectors) (specs, found) =
     (case find_element (page d) selector of
        None \<Rightarrow> section_loop d selectors (specs, found)
      | Some e \<Rightarrow>
          if tag_name e \<in> set [''button'', ''a''] \<and> \<not> activates e
          then section_loop d selectors (specs, found)
          else
            (let specs' =
               (case find_element (query e)
                       ''./ancestor::*[contains(@class, 'accordion') or contains(@class, 'panel') or contains(@class, 'tab-content')][1]'' of
                  Some parent \<Rightarrow> section_parent parent specs
                | None \<Rightarrow> section_siblings e specs)
             in if specs' \<noteq> [] then (specs', Some True)
                else section_loop d selectors (specs', Some True)))"

subsection \<open>Method 1: tables with a specification class\<close>

definition spec_selectors :: "string list" where
  "spec_selectors =
     [''//table[contains(@class, 'specification')]'',
      ''//table[contains(@class, 'spec')]'',
      ''//table[contains(@class, 'property')]'',
      ''//table[contains(@class, 'attribute')]'',
      ''//table[contains(@class, 'details')]'',
      ''//dl[contains(@class, 'specification')]'',
      ''//dl[contains(@class, 'property')]'',
      ''//div[contains(@class, 'specifications')]//table'',
      ''//div[contains(@class, 'specs')]//table'',
      ''//*[contains(@class, 'specification-table')]'',
      ''//*[contains(@class, 'product-specifications')]//table'',
      ''//*[contains(@class, 'product-specs')]//table'']"

definition spec_table_row :: "element \<Rightarrow> specs \<Rightarrow> specs" where
  "spec_table_row row specs =
     (case row_cells row of
        None \<Rightarrow> specs
      | Some (key, val) \<Rightarrow>
          if key \<noteq> [] \<and> val \<noteq> []
             \<and> lower key \<notin> set [[], ''property'', ''value'', ''specification'']
          then dict_set key val specs else specs)"

fun method1 :: "driver \<Rightarrow> string list \<Rightarrow> specs \<Rightarrow> specs" where
  "method1 d [] specs = specs"
| "method1 d (selector # selectors) specs =
     (case find_element (page d) selector of
        None \<Rightarrow> method1 d selectors specs
      | Some spec_table \<Rightarrow>
          (let specs' = fold spec_table_row (query spec_table ''.//tr'') specs
           in if specs' \<noteq> [] then specs' else method1 d selectors specs'))"

subsection \<open>Method 2: definition lists\<close>

definition dl_selectors :: "string list" where
  "dl_selectors =
     [''//dl[contains(@class, 'specification')]'',
      ''//dl[contains(@class, 'property')]'',
      ''//dl[contains(@class, 'attribute')]'',
      ''//dl[contains(@class, 'details')]'',
      ''//div[contains(@class, 'specifications')]//dl'',
      ''//div[contains(@class, 'specs')]//dl'']"

fun method2 :: "driver \<Rightarrow> string list \<Rightarrow> specs \<Rightarrow> specs" where
  "method2 d [] specs = specs"
| "method2 d (dl_selector # selectors) specs =
     (let specs' = fold dl_pairs (page d dl_selector) specs
      in if specs' \<noteq> [] then specs' else method2 d selectors specs')"

subsection \<open>Method 3: key and value in the descendants of an item\<close>

definition spec_item :: "element \<Rightarrow> specs \<Rightarrow> specs" where
  "spec_item item specs =
     (case query item (''.//*[contains(@class, 'key')] | .//*[contains(@class, 'label')] | ''
                       @ ''.//*[contains(@class, 'name')] | .//strong | .//b'') of
        [] \<Rightarrow> specs
      | key_elem # _ \<Rightarrow>
          (case query item (''.//*[contains(@class, 'value')] | .//*[contains(@class, 'data')] | ''
                            @ ''.//span[not(contains(@class, 'key'))]'') of
             [] \<Rightarrow> specs
           | value_elem # _ \<Rightarrow>
               (let key = strip (elem_text key_elem); val = strip (elem_text value_elem)
                in if key \<noteq> [] \<and> val \<noteq> [] then dict_set key val specs else specs)))"

definition spec_items_xpath :: string where
  "spec_items_xpath =
        ''//div[contains(@class, 'specification')]//div[contains(@class, 'property')] | ''
        @ ''//div[contains(@class, 'spec-item')] | ''
        @ ''//div[contains(@class, 'property-item')] | ''
        @ ''//div[contains(@class, 'attribute-item')] | ''
        @ ''//div[contains(@class, 'spec')]//div[contains(@class, 'row')]''"

definition method3 :: "driver \<Rightarrow> specs \<Rightarrow> specs" where
  "method3 d specs =
     fold spec_item
       (page d spec_items_xpath)
       specs"

subsection \<open>Method 4: list items\<close>

definition list_item :: "element \<Rightarrow> specs \<Rightarrow> specs" where
  "list_item li specs =
     (let t = strip (elem_text li) in
      if contains '':'' t then
        (case split1 '':'' t of
           [p0, p1] \<Rightarrow>
             (let key = strip p0; val = strip p1
              in if key \<noteq> [] \<and> val \<noteq> [] then dict_set key val specs else specs)
         | _ \<Rightarrow> specs)
      else if contains '' - '' t then
        (case split1 '' - '' t of
           [p0, p1] \<Rightarrow>
             (let key = strip p0; val = strip p1
              in if key \<noteq> [] \<and> val \<noteq> [] then dict_set key val specs else specs)
         | _ \<Rightarrow> specs)
      else specs)"

definition spec_lists_xpath :: string where
  "spec_lists_xpath =
        ''//div[contains(@class, 'specification')]//ul | ''
        @ ''//div[contains(@class, 'specs')]//ul | ''
        @ ''//*[contains(@class, 'product-specifications')]//ul | ''
        @ ''//ul[contains(@class, 'specification')]''"

definition method4 :: "driver \<Rightarrow> specs \<Rightarrow> specs" where
  "method4 d specs =
     fold (\<lambda>ul. fold list_item (query ul ''.//li''))
       (page d spec_lists_xpath)
       specs"

subsection \<open>Method 5: accordion and tab sections\<close>

definition accordion_selectors :: "string list" where
  "accordion_selectors =
     [''//div[contains(@class, 'accordion')]//div[contains(text(), 'Specification') or contains(text(), 'Specs')]/following-sibling::*'',
      ''//div[contains(@class, 'tab-content')]//div[contains(@class, 'specification')]'',
      ''//ngb-accordion//*[contains(text(), 'Specification')]/following-sibling::*'',
      ''//div[contains(@class, 'panel')]//div[contains(@class, 'specification')]'']"

definition accordion_row :: "element \<Rightarrow> specs \<Rightarrow> specs" where
  "accordion_row row specs =
     (case row_cells row of
        None \<Rightarrow> specs
      | Some (key, val) \<Rightarrow>
          if key \<noteq> [] \<and> val \<noteq> [] then dict_set key val specs else specs)"

definition method5 :: "driver \<Rightarrow> specs \<Rightarrow> specs" where
  "method5 d specs =
     fold (\<lambda>selector specs.
             case find_element (page d) selector of
               None \<Rightarrow> specs
             | Some spec_section \<Rightarrow> fold accordion_row (query spec_section ''.//tr'') specs)
       accordion_selectors specs"

subsection \<open>Method 6: any element tagged as a specification\<close>

definition generic_line :: "string \<Rightarrow> specs \<Rightarrow> specs" where
  "generic_line line specs =
     (if contains '':'' line then
        (case split1 '':'' line of
           [p0, p1] \<Rightarrow>
             (let key = strip p0; val = strip p1
              in if key \<noteq> [] \<and> val \<noteq> [] \<and> length key < 100 \<and> length val < 500
                 then dict_set key val specs else specs)
         | _ \<Rightarrow> specs)
      else specs)"

definition generic_divs_xpath :: string where
  "generic_divs_xpath =
        ''//div[contains(translate(@class, 'ABCDEFGHIJKLMNOPQRSTUVWXYZ', 'abcdefghijklmnopqrstuvwxyz'), 'specification')] | ''
        @ ''//div[contains(translate(@class, 'ABCDEFGHIJKLMNOPQRSTUVWXYZ', 'abcdefghijklmnopqrstuvwxyz'), 'property')] | ''
        @ ''//div[contains(translate(@id, 'ABCDEFGHIJKLMNOPQRSTUVWXYZ', 'abcdefghijklmnopqrstuvwxyz'), 'specification')] | ''
        @ ''//*[contains(translate(text(), 'ABCDEFGHIJKLMNOPQRSTUVWXYZ', 'abcdefghijklmnopqrstuvwxyz'), 'specification')]/following-sibling::*''"

definition method6 :: "driver \<Rightarrow> specs \<Rightarrow> specs" where
  "method6 d specs =
     fold (\<lambda>elem. fold generic_line (split [CHR 0x0A] (strip (elem_text elem))))
       (page d generic_divs_xpath)
       specs"

subsection \<open>Method 7: JSON-LD\<close>

text \<open>\<open>str(value)\<close> of a string or a number; a Boolean is an \<open>int\<close> for \<open>isinstance\<close>.\<close>

definition scalar_text :: "json \<Rightarrow> string option" where
  "scalar_text v =
     (case v of
        JString s \<Rightarrow> Some s
      | JNumber s \<Rightarrow> Some s
      | JBool b \<Rightarrow> Some (if b then ''True'' else ''False'')
      | _ \<Rightarrow> None)"

definition json_ld_item :: "string \<times> json \<Rightarrow> specs \<Rightarrow> specs" where
  "json_ld_item kv specs =
     (if fst kv \<notin> set [''@type'', ''@context'', ''name'', ''image'', ''description'']
      then (case scalar_text (snd kv) of
              Some s \<Rightarrow> dict_set (fst kv) s specs
            | None \<Rightarrow> specs)
      else specs)"

definition json_ld_script :: "element \<Rightarrow> specs \<Rightarrow> specs" where
  "json_ld_script script specs =
     (case inner_json script of
        Some (JObject data) \<Rightarrow>
          (case map_of data ''offers'' of
             Some (JObject offers) \<Rightarrow>
               (case map_of offers ''itemOffered'' of
                  Some (JObject item) \<Rightarrow> fold json_ld_item item specs
                | _ \<Rightarrow> specs)
           | _ \<Rightarrow> specs)
      | _ \<Rightarrow> specs)"

definition json_ld_xpath :: string where
  "json_ld_xpath = ''//script[@type='application/ld+json']''"

definition method7 :: "driver \<Rightarrow> specs \<Rightarrow> specs" where
  "method7 d specs = fold json_ld_script (page d json_ld_xpath) specs"

subsection \<open>Method 8: any table of the page\<close>

definition any_table_row :: "element \<Rightarrow> specs \<Rightarrow> specs" where
  "any_table_row row specs =
     (case row_cells row of
        None \<Rightarrow> specs
      | Some (key, val) \<Rightarrow>
          if key \<noteq> [] \<and> val \<noteq> [] \<and> length key > 0 \<and> length key < 100
             \<and> lower key \<notin> set [''home'', ''products'', ''services'', ''about'', ''contact'', ''menu'']
          then dict_set key val specs else specs)"

fun any_tables :: "element list \<Rightarrow> specs \<Rightarrow> specs" where
  "any_tables [] specs = specs"
| "any_tables (table # tables) specs =
     (let rows = query table ''.//tr'' in
      if length rows \<ge> 2 then
        (let specs' = fold any_table_row rows specs
         in if specs' \<noteq> [] then specs' else any_tables tables specs')
      else any_tables tables specs)"

definition method8 :: "driver \<Rightarrow> specs \<Rightarrow> specs" where
  "method8 d specs = any_tables (page d ''//table'') specs"

subsection \<open>Method 9: key and value pairs in any text\<close>

definition skip_words :: "string list" where
  "skip_words = [''price'', ''cart'', ''buy'', ''add to'', ''description'', ''overview'', ''return'']"

definition text_line :: "string \<Rightarrow> specs \<Rightarrow> specs" where
  "text_line line0 specs =
     (let line = strip line0 in
      if contains '':'' line \<and> length (split '':'' line) = 2 then
        (case split1 '':'' line of
           [p0, p1] \<Rightarrow>
             (let key = strip p0; val = strip p1
              in if key \<noteq> [] \<and> val \<noteq> [] \<and> 2 < length key \<and> length key < 50
                    \<and> length val < 200
                 then (if \<not> (\<exists>skip \<in> set skip_words. contains skip (lower key))
                       then dict_set key val specs else specs)
                 else specs)
         | _ \<Rightarrow> specs)
      else if contains '' - '' line \<and> length (split '' - '' line) = 2 then
        (case split1 '' - '' line of
           [p0, p1] \<Rightarrow>
             (let key = strip p0; val = strip p1
              in if key \<noteq> [] \<and> val \<noteq> [] \<and> 2 < length key \<and> length key < 50
                    \<and> length val < 200
                 then dict_set key val specs else specs)
         | _ \<Rightarrow> specs)
      else specs)"

definition text_elements_xpath :: string where
  "text_elements_xpath =
        ''//div[contains(@class, 'product')] | ''
        @ ''//div[contains(@class, 'details')] | ''
        @ ''//div[contains(@class, 'content')]''"

definition method9 :: "driver \<Rightarrow> specs \<Rightarrow> specs" where
  "method9 d specs =
     fold (\<lambda>elem. fold text_line (split [CHR 0x0A] (strip (elem_text elem))))
       (page d text_elements_xpath)
       specs"

subsection \<open>Method 10: data attributes\<close>

definition data_attribute :: "string \<times> string \<Rightarrow> specs \<Rightarrow> specs" where
  "data_attribute attr specs =
     (if contains ''spec'' (lower (fst attr)) \<or> contains ''property'' (lower (fst attr))
      then dict_set (fst attr) (snd attr) specs else specs)"

text \<open>
  When the browser rejects the selector, \<open>find_elements\<close> raises and the handler leaves
  the dictionary as it is: the case of the empty answer.
\<close>

definition data_elements_xpath :: string where
  "data_elements_xpath =
        ''//*[@data-spec] | '' @ ''//*[@data-property] | '' @ ''//*[@data-attribute] | ''
        @ ''//*[contains(@data-*, 'spec')]''"

definition method10 :: "driver \<Rightarrow> specs \<Rightarrow> specs" where
  "method10 d specs =
     fold (\<lambda>elem. fold data_attribute (attributes elem))
       (page d data_elements_xpath)
       specs"

section \<open>\<open>extract_product_data\<close>\<close>

datatype error = UnboundLocalError

text \<open>A strategy that runs only while the dictionary is empty.\<close>

definition unless_found :: "(specs \<Rightarrow> specs) \<Rightarrow> specs \<Rightarrow> specs" where
  "unless_found method specs = (if specs = [] then method specs else specs)"

text \<open>Methods 1 to 10: the first is not guarded, the others are.\<close>

definition later_methods :: "driver \<Rightarrow> specs \<Rightarrow> specs" where
  "later_methods d specs =
     (let s1 = method1 d spec_selectors specs;
          s2 = unless_found (method2 d dl_selectors) s1;
          s3 = unless_found (method3 d) s2;
          s4 = unless_found (method4 d) s3;
          s5 = unless_found (method5 d) s4;
          s6 = unless_found (method6 d) s5;
          s7 = unless_found (method7 d) s6;
          s8 = unless_found (method8 d) s7;
          s9 = unless_found (method9 d) s8
      in unless_found (method10 d) s9)"

text \<open>
  The body of the \<open>try\<close> block: \<open>Inl\<close> is an exception that reaches the handler of the
  block, with the record as it stands then; \<open>Inr\<close> is the normal end of the block.
  \<open>spec_section_found\<close> is assigned \<open>False\<close> only when Method 0 found nothing; reading it
  while it is unassigned raises \<open>UnboundLocalError\<close>.
\<close>

definition extract_body :: "driver \<Rightarrow> (error \<times> product_data) + product_data" where
  "extract_body d =
     (let pd = extract_scalars d;
          s0 = method0 d [];
          found0 = (if s0 = [] then Some False else None);
          (s1, found) = section_loop d spec_section_selectors (s0, found0)
      in case found of
           None \<Rightarrow> Inl (UnboundLocalError, pd\<lparr>specifications := s1\<rparr>)
         | Some _ \<Rightarrow>
             Inr (pd\<lparr>specifications := later_methods d s1,
                     availability := map_option (\<lambda>e. strip (elem_text e))
                                       (first_found (page d) availability_selectors)\<rparr>))"

text \<open>The handler logs the exception; the record is returned in both cases.\<close>

definition extract_product_data :: "driver \<Rightarrow> product_data" where
  "extract_product_data d =
     (case extract_body d of
        Inl (e, pd) \<Rightarrow> pd
      | Inr pd \<Rightarrow> pd)"

section \<open>Pages without specification structures\<close>

text \<open>Every query that a specification strategy puts to the page.\<close>

definition spec_queries :: "string list" where
  "spec_queries =
     spec_table_xpath # spec_section_selectors @ spec_selectors @ dl_selectors
     @ [spec_items_xpath, spec_lists_xpath] @ accordion_selectors
     @ [generic_divs_xpath, json_ld_xpath, ''//table'', text_elements_xpath,
        data_elements_xpath]"

definition no_structure :: "driver \<Rightarrow> bool" where
  "no_structure d \<longleftrightarrow> (\<forall>selector \<in> set spec_queries. page d selector = [])"

text \<open>A dictionary whose keys have no whitespace at either end.\<close>

definition trimmed :: "specs \<Rightarrow> bool" where
  "trimmed specs \<longleftrightarrow> (\<forall>k \<in> dict_keys specs. strip k = k)"

text \<open>
  The names of the attributes that Method 10 reads have no whitespace at either end:
  the name of an attribute of an HTML element contains no whitespace.
\<close>

definition attribute_names_trimmed :: "driver \<Rightarrow> bool" where
  "attribute_names_trimmed d \<longleftrightarrow>
     (\<forall>elem \<in> set (page d data_elements_xpath).
        \<forall>attr \<in> set (attributes elem). strip (fst attr) = fst attr)"

text \<open>
  The key that Method 0 makes of the text of a name cell: the text is stripped, and when
  it ends with a colon, that one character is cut off and the rest is stripped again.
\<close>

definition name_key :: "string \<Rightarrow> string" where
  "name_key t =
     (let key = strip t in if endswith key '':'' then strip (butlast key) else key)"

text \<open>
  The texts that Method 0 can read as names: the text of the first name cell of each
  item of each \<open>ul.spec-table\<close> list.
\<close>

definition item_names :: "element \<Rightarrow> string list" where
  "item_names li =
     (case query li ''.//div[contains(@class, 'name-col')]'' of
        [] \<Rightarrow> []
      | name_col # _ \<Rightarrow> [elem_text name_col])"

definition name_texts :: "driver \<Rightarrow> string list" where
  "name_texts d =
     concat (map (\<lambda>ul. concat (map item_names (query ul ''.//li''))) (page d spec_table_xpath))"

section \<open>Example pages\<close>

text \<open>An element with text and no descendants, and an element answering some queries.\<close>

definition leaf :: "string \<Rightarrow> string \<Rightarrow> element" where
  "leaf tag t = Element tag t (\<lambda>selector. []) True None []"

definition node :: "string \<Rightarrow> string \<Rightarrow> (string \<times> element list) list \<Rightarrow> element" where
  "node tag t answers =
     Element tag t (\<lambda>selector. case map_of answers selector of Some es \<Rightarrow> es | None \<Rightarrow> [])
       True None []"

definition page_of :: "(string \<times> element list) list \<Rightarrow> driver" where
  "page_of answers =
     \<lparr>page = (\<lambda>selector. case map_of answers selector of Some es \<Rightarrow> es | None \<Rightarrow> []),
      current_url = ''https://www.avantorsciences.com/us/en/product/1''\<rparr>"

text \<open>
  A page with a \<open>ul.spec-table\<close> holding \<open>Purity: 99%\<close> and, in a panel headed
  \<open>Product Details & Documents and Specifications\<close>, a table with the row \<open>Grade | ACS\<close>.
\<close>

definition grade_table :: element where
  "grade_table =
     node ''table'' ''Grade ACS''
       [(''.//tr'', [node ''tr'' ''Grade ACS''
                      [(''.//td | .//th'', [leaf ''td'' ''Grade'', leaf ''td'' ''ACS''])]])]"

definition purity_list :: element where
  "purity_list =
     node ''ul'' ''Purity: 99%''
       [(''.//li'', [node ''li'' ''Purity: 99%''
                      [(''.//div[contains(@class, 'name-col')]'', [leaf ''div'' ''Purity:'']),
                       (''.//div[contains(@class, 'value-col')]'', [leaf ''div'' ''99%''])]])]"

definition section_heading :: element where
  "section_heading =
     node ''h3'' ''Product Details & Documents and Specifications''
       [(''./ancestor::*[contains(@class, 'accordion') or contains(@class, 'panel') or contains(@class, 'tab-content')][1]'',
         [node ''div'' ''Product Details & Documents and Specifications Grade ACS''
            [(''.//table'', [grade_table])]])]"

definition spec_list_and_section :: driver where
  "spec_list_and_section =
     page_of
       [(spec_table_xpath, [purity_list]),
        (''//*[contains(text(), 'Product Details & Documents and Specifications')]'',
         [section_heading]),
        (''//*[contains(text(), 'Product Details') and contains(text(), 'Specifications')]'',
         [section_heading]),
        (''//table'', [grade_table])]"

text \<open>A page whose only specification table has the row \<open>Purity: | 99%\<close>.\<close>

definition purity_table :: element where
  "purity_table =
     node ''table'' ''Purity: 99%''
       [(''.//tr'', [node ''tr'' ''Purity: 99%''
                      [(''.//td | .//th'', [leaf ''td'' ''Purity:'', leaf ''td'' ''99%''])]])]"

definition spec_table_page :: driver where
  "spec_table_page =
     page_of
       [(''//table[contains(@class, 'specification')]'', [purity_table]),
        (''//table[contains(@class, 'spec')]'', [purity_table]),
        (''//table'', [purity_table])]"

text \<open>A page whose only content is a \<open>div\<close> of class \<open>content\<close> with the line \<open>Price - 10 USD\<close>.\<close>

definition price_line_page :: driver where
  "price_line_page =
     page_of
       [(text_elements_xpath, [leaf ''div'' ''Price - 10 USD''])]"

text \<open>A page with a title and nothing that a specification strategy looks for.\<close>

definition title_only_page :: driver where
  "title_only_page = page_of [(''//h1'', [leaf ''h1'' ''Beaker 250 mL''])]"

text \<open>
  A page whose only specification structure is a JSON-LD script: the offered item has
  the member \<open>" sku "\<close>, written with a space on either side, and the value \<open>A1\<close>.
\<close>

definition json_ld_page :: driver where
  "json_ld_page =
     page_of
       [(json_ld_xpath,
         [Element ''script'' [] (\<lambda>selector. []) True
            (Some (JObject [(''offers'',
               JObject [(''itemOffered'', JObject [('' sku '', JString ''A1'')])])]))
            []])]"

text \<open>
  A page whose only specification structure is a \<open>ul.spec-table\<close> list with one item:
  the name cell reads \<open>Purity::\<close>, with two colons, and the value cell \<open>99%\<close>.
\<close>

definition double_colon_page :: driver where
  "double_colon_page =
     page_of
       [(spec_table_xpath,
         [node ''ul'' ''Purity:: 99%''
            [(''.//li'', [node ''li'' ''Purity:: 99%''
               [(''.//div[contains(@class, 'name-col')]'', [leaf ''div'' ''Purity::'']),
                (''.//div[contains(@class, 'value-col')]'', [leaf ''div'' ''99%''])]])]])]"

section \<open>The CSV export on a store of objects\<close>

text \<open>
  Python dictionaries and lists are objects that variables and other objects refer to.
  The store is the list of the objects that exist: the address of an object is its
  index, a new object is put at the end, and an assignment \<open>d[k] = v\<close> or an \<open>append\<close>
  replaces the object at the address of \<open>d\<close>. Strings and \<open>None\<close> are values.

  A product dictionary holds its scalar entries and the address of the dictionary that
  is its \<open>specifications\<close> entry. The other objects are a specification dictionary, a
  row of the export, a list of rows and a list of products.
\<close>

datatype object =
    ProductDict "(string \<times> string option) list" nat
  | SpecDict "(string \<times> string) list"
  | RowDict row
  | RowList "nat list"
  | ProductList "nat list"

type_synonym store = "object list"

definition lookup :: "store \<Rightarrow> nat \<Rightarrow> object option" where
  "lookup h a = (if a < length h then Some (h ! a) else None)"

definition alloc :: "object \<Rightarrow> store \<Rightarrow> nat \<times> store" where
  "alloc obj h = (length h, h @ [obj])"

text \<open>\<open>product.get(key, '')\<close> on the scalar entries.\<close>

definition dict_get :: "(string \<times> string option) list \<Rightarrow> string \<Rightarrow> string option" where
  "dict_get items key = (case map_of items key of Some v \<Rightarrow> v | None \<Rightarrow> Some [])"

text \<open>
  What \<open>save_to_csv\<close> reads of a product: the scalar entries, and the items of the
  specification dictionary; there are none when the address holds no such dictionary
  (the test \<open>isinstance(specs, dict)\<close>).
\<close>

definition read_product :: "store \<Rightarrow> (string \<times> string option) list \<Rightarrow> nat \<Rightarrow> product_data" where
  "read_product h items s =
     \<lparr>product_code = dict_get items ''product_code'',
      product_name = dict_get items ''product_name'',
      model_number = dict_get items ''model_number'',
      description = dict_get items ''description'',
      price = dict_get items ''price'',
      currency = dict_get items ''currency'',
      specifications = (case lookup h s of Some (SpecDict specs) \<Rightarrow> specs | _ \<Rightarrow> []),
      availability = dict_get items ''availability'',
      url = dict_get items ''url''\<rparr>"

definition product_at :: "store \<Rightarrow> nat \<Rightarrow> product_data option" where
  "product_at h p =
     (case lookup h p of
        Some (ProductDict items s) \<Rightarrow> Some (read_product h items s)
      | _ \<Rightarrow> None)"

text \<open>\<open>row[clean_key] = ...\<close>: the body of the loop over the specifications, on the row at \<open>r\<close>.\<close>

definition set_spec :: "nat \<Rightarrow> string \<times> string \<Rightarrow> store \<Rightarrow> store" where
  "set_spec r kv h =
     (case lookup h r of
        Some (RowDict row) \<Rightarrow> h[r := RowDict (add_spec kv row)]
      | _ \<Rightarrow> h)"

text \<open>\<open>rows.append(row)\<close>.\<close>

definition append_row :: "nat \<Rightarrow> nat \<Rightarrow> store \<Rightarrow> store" where
  "append_row rows r h =
     (case lookup h rows of
        Some (RowList rs) \<Rightarrow> h[rows := RowList (rs @ [r])]
      | _ \<Rightarrow> h)"

text \<open>
  The loop \<open>for product in products\<close>. A new row dictionary is made of the scalar
  entries, the specifications are written into it one by one, and its address is
  appended to the list at \<open>rows\<close>. The items of the specification dictionary are those
  it has when the loop over \<open>specs.items()\<close> begins. The result is \<open>False\<close> when an
  element of \<open>products\<close> is not a product dictionary: \<open>product.get\<close> raises, and the
  handler of \<open>save_to_csv\<close> returns \<open>None\<close>.
\<close>

fun flatten :: "nat \<Rightarrow> nat list \<Rightarrow> store \<Rightarrow> bool \<times> store" where
  "flatten rows [] h = (True, h)"
| "flatten rows (p # ps) h =
     (case lookup h p of
        Some (ProductDict items s) \<Rightarrow>
          (let (r, h1) = alloc (RowDict (initial_row (read_product h items s))) h;
               h2 = fold (set_spec r) (specifications (read_product h1 items s)) h1;
               h3 = append_row rows r h2
           in flatten rows ps h3)
      | _ \<Rightarrow> (False, h))"

definition rows_at :: "store \<Rightarrow> nat \<Rightarrow> row list" where
  "rows_at h rows =
     (case lookup h rows of
        Some (RowList rs) \<Rightarrow>
          map (\<lambda>r. case lookup h r of Some (RowDict row) \<Rightarrow> row | _ \<Rightarrow> []) rs
      | _ \<Rightarrow> [])"

text \<open>
  The loop that writes the rows: each \<open>cleaned_row\<close> is a new dictionary with one entry
  for each column of the header.
\<close>

definition write_rows :: "string list \<Rightarrow> row list \<Rightarrow> store \<Rightarrow> store" where
  "write_rows names rows h =
     fold (\<lambda>row h. snd (alloc (RowDict (zip names (cleaned_row names row))) h)) rows h"

text \<open>
  The file name: the one given or, for a single product with a product code, the name
  made of the code, or else the name made of the time stamp. The result is \<open>None\<close> when
  the single element of \<open>products\<close> is not a product dictionary and \<open>products[0].get\<close>
  raises.
\<close>

definition file_name_at :: "store \<Rightarrow> nat list \<Rightarrow> string option \<Rightarrow> string \<Rightarrow> string option" where
  "file_name_at h products filename stamp =
     (case filename of
        Some (c # cs) \<Rightarrow> Some (c # cs)
      | _ \<Rightarrow>
          (case products of
             [p] \<Rightarrow> map_option (\<lambda>product. default_filename [product] stamp) (product_at h p)
           | _ \<Rightarrow> Some (''products_'' @ stamp @ ''.csv'')))"

text \<open>
  \<open>save_to_csv\<close> on the store. The argument is the address of a product dictionary or of
  a list of products; an argument of another kind is taken to have no products. The
  result is what is handed to the CSV writer, as for \<open>save_to_csv\<close> above, and the store
  after the call. The list \<open>rows\<close> is a new object; the set \<open>all_keys\<close> and the list
  \<open>fieldnames\<close> hold strings only and are values.
\<close>

definition save_to_csv_store ::
    "nat \<Rightarrow> string option \<Rightarrow> string \<Rightarrow> store \<Rightarrow> csv_file option \<times> store" where
  "save_to_csv_store product_data filename stamp h =
     (let products = (case lookup h product_data of
                        Some (ProductDict items s) \<Rightarrow> [product_data]
                      | Some (ProductList ps) \<Rightarrow> ps
                      | _ \<Rightarrow> [])
      in if products = [] then (None, h)
         else
           (case file_name_at h products filename stamp of
              None \<Rightarrow> (None, h)
            | Some name \<Rightarrow>
                (let (rows, h1) = alloc (RowList []) h;
                     (ok, h2) = flatten rows products h1
                 in if \<not> ok then (None, h2)
                    else
                      (let names = fieldnames (rows_at h2 rows);
                           h3 = write_rows names (rows_at h2 rows) h2
                       in (Some \<lparr>file_name = name, header = names,
                                 records = map (cleaned_row names) (rows_at h2 rows)\<rparr>,
                           h3)))))"

section \<open>An example store\<close>

text \<open>
  A list of one product at address 0, the product at address 1 and its specification
  dictionary at address 2. The key \<open>URL\<close> of the specification meets the column \<open>URL\<close>.
\<close>

definition beaker_store :: store where
  "beaker_store =
     [ProductList [1],
      ProductDict
        [(''product_code'', Some ''B250''), (''product_name'', Some ''Beaker 250 mL''),
         (''model_number'', None), (''description'', None), (''price'', Some ''12.50''),
         (''currency'', Some ''USD''), (''availability'', None),
         (''url'', Some ''https://www.avantorsciences.com/us/en/product/1'')] 2,
      SpecDict [(''Volume'', ''250 mL''), (''URL'', ''x'')]]"

section \<open>Normalisation: proofs\<close>


lemma replace_Nil [simp]: "replace old new [] = []"
  by (simp add: replace.simps)

lemma replace_single:
  "replace [a] new s = concat (map (\<lambda>c. if c = a then new else [c]) s)"
proof (induction s)
  case Nil
  show ?case by simp
next
  case (Cons c s)
  then show ?case by (subst replace.simps) auto
qed

lemma replace_space_map:
  "replace [a] '' '' s = map (\<lambda>c. if c = a then CHR '' '' else c) s"
  by (simp add: replace_single) (induction s; simp)

lemma re_sub_spaces_map:
  assumes "\<And>c. isspace (f c) = isspace c" "\<And>c. \<not> isspace c \<Longrightarrow> f c = c"
  shows "re_sub_spaces (map f s) = re_sub_spaces s"
proof (induction s rule: re_sub_spaces.induct)
  case 1
  show ?case by simp
next
  case (2 c cs)
  have comp: "isspace \<circ> f = isspace" using assms(1) by auto
  show ?case
  proof (cases "isspace c")
    case True
    with 2 show ?thesis by (simp add: assms(1) dropWhile_map comp)
  next
    case False
    with 2 show ?thesis by (simp add: assms)
  qed
qed

lemma replace_crlf_Cons:
  "replace [CHR 0x0D, CHR 0x0A] new (c # s) =
     (case s of d # s' \<Rightarrow> if c = CHR 0x0D \<and> d = CHR 0x0A then new @ replace [CHR 0x0D, CHR 0x0A] new s'
                         else c # replace [CHR 0x0D, CHR 0x0A] new s
      | [] \<Rightarrow> [c])"
  by (subst replace.simps) (auto split: list.splits)

lemma dropWhile_replace_crlf:
  "dropWhile isspace (replace [CHR 0x0D, CHR 0x0A] '' '' s) =
   replace [CHR 0x0D, CHR 0x0A] '' '' (dropWhile isspace s)"
proof (induction "length s" arbitrary: s rule: less_induct)
  case less
  show ?case
  proof (cases s)
    case Nil
    then show ?thesis by simp
  next
    case (Cons c s')
    show ?thesis
    proof (cases s')
      case Nil
      with Cons show ?thesis by (simp add: replace_crlf_Cons)
    next
      case (Cons d s'')
      have sp: "isspace (CHR 0x0D)" "isspace (CHR 0x0A)" "isspace (CHR '' '')"
        by (simp_all add: isspace_def)
      show ?thesis
      proof (cases "c = CHR 0x0D \<and> d = CHR 0x0A")
        case True
        with \<open>s = c # s'\<close> Cons less [of s''] sp show ?thesis
          by (simp add: replace_crlf_Cons)
      next
        case False
        with \<open>s = c # s'\<close> Cons less [of s'] show ?thesis
          by (auto simp add: replace_crlf_Cons)
      qed
    qed
  qed
qed

lemma re_sub_spaces_replace_crlf:
  "re_sub_spaces (replace [CHR 0x0D, CHR 0x0A] '' '' s) = re_sub_spaces s"
proof (induction "length s" arbitrary: s rule: less_induct)
  case less
  have sp: "isspace (CHR 0x0D)" "isspace (CHR 0x0A)" "isspace (CHR '' '')"
    by (simp_all add: isspace_def)
  show ?case
  proof (cases s)
    case Nil
    then show ?thesis by simp
  next
    case (Cons c s')
    show ?thesis
    proof (cases s')
      case Nil
      with Cons show ?thesis by (simp add: replace_crlf_Cons)
    next
      case (Cons d s'')
      have l1: "length (dropWhile isspace s'') < length s"
        using \<open>s = c # s'\<close> Cons length_dropWhile_le [of isspace s''] by simp
      have l2: "length (dropWhile isspace s') < length s"
        using \<open>s = c # s'\<close> length_dropWhile_le [of isspace s'] by simp
      show ?thesis
      proof (cases "c = CHR 0x0D \<and> d = CHR 0x0A")
        case True
        with \<open>s = c # s'\<close> Cons less [OF l1] sp show ?thesis
          by (simp add: replace_crlf_Cons dropWhile_replace_crlf)
      next
        case False
        show ?thesis
        proof (cases "isspace c")
          case True
          have "re_sub_spaces (replace [CHR 0x0D, CHR 0x0A] '' '' s) =
                re_sub_spaces (c # replace [CHR 0x0D, CHR 0x0A] '' '' s')"
            using False \<open>s = c # s'\<close> Cons by (auto simp add: replace_crlf_Cons)
          also have "\<dots> = CHR '' '' # re_sub_spaces (replace [CHR 0x0D, CHR 0x0A] '' '' (dropWhile isspace s'))"
            using True by (simp add: dropWhile_replace_crlf)
          also have "\<dots> = CHR '' '' # re_sub_spaces (dropWhile isspace s')"
            using less [OF l2] by simp
          also have "\<dots> = re_sub_spaces s" using True \<open>s = c # s'\<close> by simp
          finally show ?thesis .
        next
          case nsp: False
          have "re_sub_spaces (replace [CHR 0x0D, CHR 0x0A] '' '' s) =
                re_sub_spaces (c # replace [CHR 0x0D, CHR 0x0A] '' '' s')"
            using False \<open>s = c # s'\<close> Cons by (auto simp add: replace_crlf_Cons)
          also have "\<dots> = c # re_sub_spaces s'"
            using nsp less [of s'] \<open>s = c # s'\<close> by simp
          finally show ?thesis using nsp \<open>s = c # s'\<close> by simp
        qed
      qed
    qed
  qed
qed

lemma clean_text_for_csv_Some:
  "clean_text_for_csv (Some s) = strip (re_sub_spaces s)"
proof -
  have sp: "isspace (CHR 0x0D)" "isspace (CHR 0x0A)" "isspace (CHR '' '')"
    by (simp_all add: isspace_def)
  have m: "re_sub_spaces (map (\<lambda>c. if c = a then CHR '' '' else c) t) = re_sub_spaces t"
    if "isspace a" for a t
    by (rule re_sub_spaces_map) (use that sp in auto)
  have "clean_text_for_csv (Some s) =
          strip (re_sub_spaces (replace [CHR 0x0D] '' ''
            (replace [CHR 0x0A] '' '' (replace [CHR 0x0D, CHR 0x0A] '' '' s))))"
    by (simp add: clean_text_for_csv_def)
  also have "\<dots> = strip (re_sub_spaces
            (replace [CHR 0x0A] '' '' (replace [CHR 0x0D, CHR 0x0A] '' '' s)))"
    by (simp only: replace_space_map m [OF sp(1)])
  also have "\<dots> = strip (re_sub_spaces (replace [CHR 0x0D, CHR 0x0A] '' '' s))"
    by (simp only: replace_space_map m [OF sp(2)])
  also have "\<dots> = strip (re_sub_spaces s)"
    by (simp only: re_sub_spaces_replace_crlf)
  finally show ?thesis .
qed


lemma split_ws_Nil [simp]: "split_ws [] = []"
  by (simp add: split_ws.simps)

lemma split_ws_space: "isspace c \<Longrightarrow> split_ws (c # cs) = split_ws cs"
  by (subst split_ws.simps, subst (2) split_ws.simps) simp

lemma split_ws_word:
  "\<not> isspace c \<Longrightarrow>
   split_ws (c # cs) = (c # takeWhile (\<lambda>x. \<not> isspace x) cs)
                         # split_ws (dropWhile (\<lambda>x. \<not> isspace x) cs)"
  by (subst split_ws.simps) simp

lemma split_ws_dropWhile: "split_ws (dropWhile isspace s) = split_ws s"
  by (induction s) (simp_all add: split_ws_space)

lemma split_ws_words:
  "w \<in> set (split_ws s) \<Longrightarrow> w \<noteq> [] \<and> (\<forall>c \<in> set w. \<not> isspace c)"
proof (induction s arbitrary: w rule: split_ws.induct)
  case (1 s)
  show ?case
  proof (cases "dropWhile isspace s")
    case Nil
    with 1(2) show ?thesis by (simp add: split_ws.simps)
  next
    case (Cons c cs)
    have c: "\<not> isspace c" using Cons hd_dropWhile [of isspace s] by force
    from 1(2) Cons have "w = c # takeWhile (\<lambda>x. \<not> isspace x) cs
        \<or> w \<in> set (split_ws (dropWhile (\<lambda>x. \<not> isspace x) cs))"
      by (subst (asm) split_ws.simps) simp
    then show ?thesis
    proof
      assume "w = c # takeWhile (\<lambda>x. \<not> isspace x) cs"
      then show ?thesis using c by (auto dest: set_takeWhileD)
    next
      assume "w \<in> set (split_ws (dropWhile (\<lambda>x. \<not> isspace x) cs))"
      then show ?thesis using 1(1) [OF Cons] by blast
    qed
  qed
qed

lemma join_spaces_Cons:
  "join_spaces (w # ws) = (if ws = [] then w else w @ CHR '' '' # join_spaces ws)"
  by (cases ws) simp_all

lemma join_spaces_eq_Nil:
  "\<forall>w \<in> set ws. w \<noteq> [] \<Longrightarrow> join_spaces ws = [] \<longleftrightarrow> ws = []"
  by (cases ws) (auto simp: join_spaces_Cons)

lemma normalize_spec_eq_Nil: "join_spaces (split_ws s) = [] \<longleftrightarrow> split_ws s = []"
  by (rule join_spaces_eq_Nil) (use split_ws_words in blast)

lemma rstrip_space:
  "isspace c \<Longrightarrow>
   rev (dropWhile isspace (rev (c # t))) =
     (if rev (dropWhile isspace (rev t)) = [] then [] else c # rev (dropWhile isspace (rev t)))"
  by (auto simp: dropWhile_append)

lemma rstrip_word:
  "\<not> isspace c \<Longrightarrow>
   rev (dropWhile isspace (rev (c # t))) = c # rev (dropWhile isspace (rev t))"
  by (auto simp: dropWhile_append)

lemma rstrip_re_sub_spaces:
  "rev (dropWhile isspace (rev (re_sub_spaces s))) =
     (if s \<noteq> [] \<and> isspace (hd s)
      then (if split_ws s = [] then [] else CHR '' '' # join_spaces (split_ws s))
      else join_spaces (split_ws s))"
proof (induction s rule: re_sub_spaces.induct)
  case 1
  show ?case by simp
next
  case (2 c cs)
  have sp: "isspace (CHR '' '')" by (simp add: isspace_def)
  show ?case
  proof (cases "isspace c")
    case True
    let ?D = "dropWhile isspace cs"
    have D: "\<not> (?D \<noteq> [] \<and> isspace (hd ?D))"
      using hd_dropWhile [of isspace cs] by blast
    have "rev (dropWhile isspace (rev (re_sub_spaces ?D))) = join_spaces (split_ws ?D)"
      using 2(1) [OF True] D by simp
    then have ih: "rev (dropWhile isspace (rev (re_sub_spaces ?D))) = join_spaces (split_ws (c # cs))"
      by (simp add: split_ws_dropWhile split_ws_space [OF True])
    have "re_sub_spaces (c # cs) = CHR '' '' # re_sub_spaces ?D"
      using True by simp
    then have "rev (dropWhile isspace (rev (re_sub_spaces (c # cs)))) =
        (if join_spaces (split_ws (c # cs)) = [] then []
         else CHR '' '' # join_spaces (split_ws (c # cs)))"
      by (simp only: rstrip_space [OF sp] ih)
    then show ?thesis
      using True by (simp add: normalize_spec_eq_Nil)
  next
    case False
    note ih = 2(2) [OF False]
    have "re_sub_spaces (c # cs) = c # re_sub_spaces cs"
      using False by simp
    then have step: "rev (dropWhile isspace (rev (re_sub_spaces (c # cs)))) =
        c # rev (dropWhile isspace (rev (re_sub_spaces cs)))"
      by (simp only: rstrip_word [OF False])
    show ?thesis
    proof (cases cs)
      case Nil
      with False show ?thesis by (simp add: split_ws_word)
    next
      case (Cons d ds)
      show ?thesis
      proof (cases "isspace d")
        case True
        have "rev (dropWhile isspace (rev (re_sub_spaces cs))) =
            (if split_ws cs = [] then [] else CHR '' '' # join_spaces (split_ws cs))"
          using ih True Cons by simp
        moreover have "split_ws (c # cs) = [c] # split_ws cs"
          using False True Cons by (simp add: split_ws_word)
        ultimately show ?thesis
          using False step by (simp only: join_spaces_Cons list.sel list.simps) simp
      next
        case nd: False
        have "rev (dropWhile isspace (rev (re_sub_spaces cs))) = join_spaces (split_ws cs)"
          using ih nd Cons by simp
        moreover have "split_ws cs = (d # takeWhile (\<lambda>x. \<not> isspace x) ds)
              # split_ws (dropWhile (\<lambda>x. \<not> isspace x) ds)"
          using nd Cons by (simp add: split_ws_word)
        moreover have "split_ws (c # cs) = (c # d # takeWhile (\<lambda>x. \<not> isspace x) ds)
              # split_ws (dropWhile (\<lambda>x. \<not> isspace x) ds)"
          using False nd Cons by (simp add: split_ws_word)
        ultimately show ?thesis
          using False step by (simp only: join_spaces_Cons list.sel list.simps) simp
      qed
    qed
  qed
qed

lemma lstrip_re_sub_spaces:
  "s = [] \<or> \<not> isspace (hd s) \<Longrightarrow> dropWhile isspace (re_sub_spaces s) = re_sub_spaces s"
  by (cases s) auto

lemma strip_re_sub_spaces: "strip (re_sub_spaces s) = join_spaces (split_ws s)"
proof (cases "s \<noteq> [] \<and> isspace (hd s)")
  case True
  then obtain c cs where s: "s = c # cs" and c: "isspace c" by (cases s) auto
  let ?D = "dropWhile isspace cs"
  have D: "\<not> (?D \<noteq> [] \<and> isspace (hd ?D))"
    using hd_dropWhile [of isspace cs] by blast
  have nd: "dropWhile isspace (re_sub_spaces ?D) = re_sub_spaces ?D"
    by (rule lstrip_re_sub_spaces) (use D in blast)
  have sp: "isspace (CHR '' '')" by (simp add: isspace_def)
  have "strip (re_sub_spaces s) = rev (dropWhile isspace (rev (re_sub_spaces ?D)))"
    using s c sp nd by (simp add: strip_def)
  also have "\<dots> = join_spaces (split_ws ?D)"
    using D by (simp add: rstrip_re_sub_spaces)
  also have "\<dots> = join_spaces (split_ws s)"
    using s c by (simp add: split_ws_dropWhile split_ws_space)
  finally show ?thesis .
next
  case False
  then have "dropWhile isspace (re_sub_spaces s) = re_sub_spaces s"
    by (intro lstrip_re_sub_spaces) blast
  then show ?thesis using False by (simp add: strip_def rstrip_re_sub_spaces)
qed

lemma clean_text_for_csv_normalize:
  "clean_text_for_csv (Some s) = normalize_spec s"
  by (simp add: clean_text_for_csv_Some strip_re_sub_spaces normalize_spec_def)

lemma split_ws_join_spaces:
  "\<forall>w \<in> set ws. w \<noteq> [] \<and> (\<forall>c \<in> set w. \<not> isspace c) \<Longrightarrow> split_ws (join_spaces ws) = ws"
proof (induction ws rule: join_spaces.induct)
  case 1
  show ?case by simp
next
  case (2 w)
  then obtain c cs where w: "w = c # cs" by (cases w) auto
  with 2 have c: "\<not> isspace c" and cs: "\<forall>x \<in> set cs. \<not> isspace x" by auto
  have t: "takeWhile (\<lambda>x. \<not> isspace x) cs = cs"
    and d: "dropWhile (\<lambda>x. \<not> isspace x) cs = []"
    using cs by simp_all
  have "split_ws (c # cs) = (c # cs) # split_ws []"
    by (simp only: split_ws_word [OF c] t d)
  then show ?case using w by simp
next
  case (3 w v vs)
  have sp: "isspace (CHR '' '')" by (simp add: isspace_def)
  from 3 obtain c cs where w: "w = c # cs" by (cases w) auto
  let ?r = "CHR '' '' # join_spaces (v # vs)"
  have cs: "\<forall>x \<in> set cs. \<not> isspace x" "\<not> isspace c" using 3(2) w by auto
  have t: "takeWhile (\<lambda>x. \<not> isspace x) (cs @ ?r) = cs"
    using cs sp by simp
  have d: "dropWhile (\<lambda>x. \<not> isspace x) (cs @ ?r) = ?r"
    using cs sp by simp
  have "split_ws (join_spaces (w # v # vs)) = split_ws (c # (cs @ ?r))"
    using w by simp
  also have "\<dots> = (c # cs) # split_ws ?r"
    by (simp only: split_ws_word [OF cs(2)] t d)
  also have "\<dots> = w # split_ws (join_spaces (v # vs))"
    using w sp by (simp add: split_ws_space)
  also have "\<dots> = w # v # vs" using 3 by simp
  finally show ?case .
qed

lemma clean_text_for_csv_idem:
  "clean_text_for_csv (Some (clean_text_for_csv x)) = clean_text_for_csv x"
proof (cases x)
  case None
  then show ?thesis by (simp add: clean_text_for_csv_normalize normalize_spec_def) (simp add: clean_text_for_csv_def)
next
  case (Some s)
  have "split_ws (join_spaces (split_ws s)) = split_ws s"
    by (rule split_ws_join_spaces) (use split_ws_words in blast)
  then show ?thesis using Some
    by (simp add: clean_text_for_csv_normalize normalize_spec_def)
qed

text \<open>
  Claim C8. \<open>clean_text_for_csv\<close> maps the text \<open>a\<close>, line feed, \<open>b\<close>, two spaces, \<open>c\<close>
  to \<open>a b c\<close> and maps \<open>None\<close> to the empty string; on every string it returns the
  words of the string joined by single spaces, that is, line breaks and runs of
  whitespace are collapsed to one space and leading and trailing whitespace is removed.
\<close>

theorem clean_text_for_csv_collapses:
  "clean_text_for_csv (Some [CHR ''a'', CHR 0x0A, CHR ''b'', CHR '' '', CHR '' '', CHR ''c'']) = ''a b c''
   \<and> clean_text_for_csv None = []
   \<and> (\<forall>s. clean_text_for_csv (Some s) = normalize_spec s)"
proof -
  have "clean_text_for_csv (Some [CHR ''a'', CHR 0x0A, CHR ''b'', CHR '' '', CHR '' '', CHR ''c'']) = ''a b c''"
    by (simp add: clean_text_for_csv_Some strip_def isspace_def)
  moreover have "clean_text_for_csv None = []"
    by (simp add: clean_text_for_csv_def)
  ultimately show ?thesis
    using clean_text_for_csv_normalize by blast
qed

text \<open>
  Claim C10. \<open>clean_text_for_csv\<close> is idempotent: normalising a value that is already
  normalised returns it unchanged, for every string and for \<open>None\<close>.
\<close>

theorem clean_text_for_csv_idempotent:
  "clean_text_for_csv (Some (clean_text_for_csv x)) = clean_text_for_csv x"
  by (rule clean_text_for_csv_idem)

section \<open>The CSV export: proofs\<close>

lemma map_of_dict_set: "map_of (dict_set k v d) = (map_of d)(k \<mapsto> v)"
  by (induction d) (auto simp: fun_eq_iff)

lemma dict_keys_dom: "dict_keys d = dom (map_of d)"
  by (simp add: dict_keys_def dom_map_of_conv_image_fst)

lemma dict_keys_dict_set: "dict_keys (dict_set k v d) = insert k (dict_keys d)"
  by (simp add: dict_keys_dom map_of_dict_set)

lemma map_fst_dict_set:
  "map_of d k = Some c \<Longrightarrow> map fst (dict_set k v d) = map fst d"
  by (induction d) (auto split: if_splits)

lemma dict_keys_add_spec:
  "dict_keys (add_spec kv row) =
     dict_keys row \<union> (if clean_text_for_csv (Some (fst kv)) \<noteq> []
                        then {clean_text_for_csv (Some (fst kv))} else {})"
  by (simp add: add_spec_def Let_def dict_keys_dict_set split: option.splits)

lemma dict_keys_fold_add_spec:
  "dict_keys (fold add_spec specs row) =
     dict_keys row \<union> {k. \<exists>kv \<in> set specs. k = clean_text_for_csv (Some (fst kv)) \<and> k \<noteq> []}"
  by (induction specs arbitrary: row) (auto simp: dict_keys_add_spec)

lemma dict_keys_initial_row: "dict_keys (initial_row p) = set standard_fields"
  by (simp add: initial_row_def standard_fields_def dict_keys_def)

lemma dict_keys_build_row:
  "dict_keys (build_row p) =
     set standard_fields
     \<union> {k. \<exists>kv \<in> set (specifications p). k = clean_text_for_csv (Some (fst kv)) \<and> k \<noteq> []}"
  by (simp add: build_row_def dict_keys_fold_add_spec dict_keys_initial_row)

lemma all_keys_Union: "all_keys rows = (\<Union>r \<in> set rows. dict_keys r)"
  by (auto simp: all_keys_def dict_keys_def)

lemma spec_columns_all_keys:
  "Set.filter (\<lambda>k. k \<notin> set standard_fields) (all_keys (map build_row ps)) = spec_columns ps"
  by (auto simp: all_keys_Union dict_keys_build_row spec_columns_def)

lemma fieldnames_build_rows:
  "fieldnames (map build_row ps) =
     filter (\<lambda>k. \<exists>r \<in> set (map build_row ps). k \<in> dict_keys r) standard_fields
     @ sorted_list_of_set (spec_columns ps)"
  unfolding fieldnames_def spec_columns_all_keys
  by (simp add: all_keys_Union)

lemma standard_columns_present:
  "ps \<noteq> [] \<Longrightarrow>
   filter (\<lambda>k. \<exists>r \<in> set (map build_row ps). k \<in> dict_keys r) standard_fields = standard_fields"
  by (cases ps) (auto simp: dict_keys_build_row filter_id_conv)

lemma spec_columns_set: "set ps = set qs \<Longrightarrow> spec_columns ps = spec_columns qs"
  by (simp add: spec_columns_def)

lemma fieldnames_permutation:
  assumes "mset qs = mset ps"
  shows "fieldnames (map build_row qs) = fieldnames (map build_row ps)"
proof -
  have "set qs = set ps" using assms by (rule mset_eq_setD)
  then show ?thesis
    by (simp add: fieldnames_build_rows spec_columns_set [of qs ps])
qed


lemma add_spec_collision:
  assumes "clean_text_for_csv (Some k) \<noteq> []"
    and "map_of row (clean_text_for_csv (Some k)) = Some cell"
  shows "add_spec (k, v) row =
     dict_set (clean_text_for_csv (Some k))
       (Some (clean_text_for_csv cell @ ''; '' @ clean_text_for_csv (Some v))) row"
  using assms by (simp add: add_spec_def)

text \<open>
  Claim C3, as the code has it. Given an empty list of product records, \<open>save_to_csv\<close>
  takes its \<open>return None\<close> branch: it hands no table to the writer, whatever the file
  name, and returns the value it also returns when saving fails.
\<close>

theorem save_to_csv_empty: "save_to_csv (Many []) filename stamp = None"
  by (simp add: save_to_csv_def)

text \<open>
  Claim C3 as stated (an empty list yields an empty table) fails: for the empty list and
  the file name \<open>out.csv\<close> there is no table at all.
\<close>

theorem save_to_csv_empty_counterexample:
  "save_to_csv (Many []) (Some ''out.csv'') ''0'' = None"
  by (simp add: save_to_csv_def)

text \<open>The header that \<open>save_to_csv\<close> hands to the writer.\<close>

lemma save_to_csv_Many:
  "ps \<noteq> [] \<Longrightarrow>
   map_option header (save_to_csv (Many ps) filename stamp) = Some (fieldnames (map build_row ps))"
  by (simp add: save_to_csv_def Let_def)

lemma standard_columns_all_keys:
  "ps \<noteq> [] \<Longrightarrow>
   filter (\<lambda>k. k \<in> all_keys (map build_row ps)) standard_fields = standard_fields"
  by (cases ps) (auto simp: all_keys_Union dict_keys_build_row filter_id_conv)

lemma save_to_csv_permutation:
  assumes "ps \<noteq> []" and m: "mset qs = mset ps"
  shows "map_option header (save_to_csv (Many qs) filename stamp)
          = map_option header (save_to_csv (Many ps) filename stamp)"
proof -
  from assms have q: "qs \<noteq> []" by auto
  have "map_option header (save_to_csv (Many qs) filename stamp)
      = Some (fieldnames (map build_row qs))"
    by (rule save_to_csv_Many [OF q])
  also have "\<dots> = Some (fieldnames (map build_row ps))"
    by (simp only: fieldnames_permutation [OF m])
  also have "\<dots> = map_option header (save_to_csv (Many ps) filename stamp)"
    by (rule save_to_csv_Many [OF assms(1), symmetric])
  finally show ?thesis .
qed

lemma save_to_csv_Some:
  assumes ne: "ps \<noteq> []"
  shows "\<exists>f. save_to_csv (Many ps) filename stamp = Some f
          \<and> header f = filter (\<lambda>k. k \<in> all_keys (map build_row ps)) standard_fields
                        @ sorted_list_of_set (spec_columns ps)
          \<and> header f = standard_fields @ sorted_list_of_set (spec_columns ps)"
proof -
  have h: "fieldnames (map build_row ps) = standard_fields @ sorted_list_of_set (spec_columns ps)"
    by (simp only: fieldnames_build_rows standard_columns_present [OF ne])
  obtain f where f: "save_to_csv (Many ps) filename stamp = Some f"
      and hf: "header f = fieldnames (map build_row ps)"
    using ne by (simp add: save_to_csv_def Let_def)
  from hf h have "header f = standard_fields @ sorted_list_of_set (spec_columns ps)"
    by (simp only:)
  moreover from this have "header f = filter (\<lambda>k. k \<in> all_keys (map build_row ps)) standard_fields
                        @ sorted_list_of_set (spec_columns ps)"
    by (simp only: standard_columns_all_keys [OF ne])
  ultimately show ?thesis using f by blast
qed

text \<open>
  Claim C5, as the code has it. For a list of products that is not empty, \<open>save_to_csv\<close>
  hands a table to the writer, and the header of that table is the standard columns
  present in some row, in the standard order (all eight: every row has them), followed
  in sorted order by the specification columns: the cleaned specification keys of all
  products that are not empty and are not the name of a standard column. Any
  permutation of the products gives the same header.
\<close>

theorem save_to_csv_header:
  "ps \<noteq> [] \<Longrightarrow>
     (\<exists>f. save_to_csv (Many ps) filename stamp = Some f
          \<and> header f = filter (\<lambda>k. k \<in> all_keys (map build_row ps)) standard_fields
                        @ sorted_list_of_set (spec_columns ps)
          \<and> header f = standard_fields @ sorted_list_of_set (spec_columns ps))
     \<and> (\<forall>qs. mset qs = mset ps \<longrightarrow>
          map_option header (save_to_csv (Many qs) filename stamp)
          = map_option header (save_to_csv (Many ps) filename stamp))"
  by (rule conjI, rule save_to_csv_Some, assumption)
     (intro allI impI, rule save_to_csv_permutation)

text \<open>
  Claim C5 as amended, at two records with the keys \<open>Purity\<close> and \<open>Color\<close>, and at their
  reversal.
\<close>

theorem save_to_csv_header_witness:
  "c5_records \<noteq> []
   \<and> map_option header (save_to_csv (Many c5_records) None ''0'')
     = Some (standard_fields @ [''Color'', ''Purity''])
   \<and> map_option header (save_to_csv (Many (rev c5_records)) None ''0'')
     = map_option header (save_to_csv (Many c5_records) None ''0'')"
proof -
  have ne: "c5_records \<noteq> []" by (simp add: c5_records_def)
  have m: "mset (rev c5_records) = mset c5_records" by simp
  have s: "sorted_list_of_set (spec_columns c5_records) = [''Color'', ''Purity'']"
    by code_simp
  note t = save_to_csv_header [OF ne, of None "''0''"]
  from t obtain f where f: "save_to_csv (Many c5_records) None ''0'' = Some f"
    and h: "header f = standard_fields @ sorted_list_of_set (spec_columns c5_records)"
    by blast
  from f h s have a: "map_option header (save_to_csv (Many c5_records) None ''0'')
     = Some (standard_fields @ [''Color'', ''Purity''])"
    by (simp only: option.map)
  from t m have b: "map_option header (save_to_csv (Many (rev c5_records)) None ''0'')
     = map_option header (save_to_csv (Many c5_records) None ''0'')"
    by blast
  from ne a b show ?thesis by (intro conjI)
qed

text \<open>
  Claim C5 as stated fails. The specification keys of the record are \<open>Lot  size\<close>, with
  two spaces, and \<open>Price\<close>; the header has, after the standard columns, the one column
  \<open>Lot size\<close>: the first key is cleaned, and the second is the standard column \<open>Price\<close>
  and adds no column.
\<close>

theorem save_to_csv_header_counterexample:
  "sorted_list_of_set (dict_keys (specifications lot_record)) = [''Lot  size'', ''Price'']
   \<and> map_option header (save_to_csv (Many [lot_record]) None ''0'')
       = Some (standard_fields @ [''Lot size''])
   \<and> [''Lot size''] \<noteq> [''Lot  size'', ''Price'']"
  by code_simp

text \<open>
  Claim C6, as the code has it. When the cleaned key of a specification is already a column
  of the row (a standard column or an earlier specification of the same record), the
  cell becomes the cleaned old cell, then \<open>; \<close>, then the cleaned new value; no other
  cell changes and no column is added. When the old cell is already clean, the new
  value is appended to it unchanged.
\<close>

theorem add_spec_appends:
  assumes "clean_text_for_csv (Some k) \<noteq> []"
    and "map_of row (clean_text_for_csv (Some k)) = Some cell"
  shows "map_of (add_spec (k, v) row) (clean_text_for_csv (Some k)) =
           Some (Some (clean_text_for_csv cell @ ''; '' @ clean_text_for_csv (Some v)))
         \<and> (\<forall>k'. k' \<noteq> clean_text_for_csv (Some k) \<longrightarrow>
               map_of (add_spec (k, v) row) k' = map_of row k')
         \<and> map fst (add_spec (k, v) row) = map fst row
         \<and> (\<forall>c. cell = Some c \<and> clean_text_for_csv (Some c) = c \<longrightarrow>
               map_of (add_spec (k, v) row) (clean_text_for_csv (Some k)) =
                 Some (Some (c @ ''; '' @ clean_text_for_csv (Some v))))"
  using assms
  by (auto simp: add_spec_collision map_of_dict_set map_fst_dict_set)

text \<open>Claim C6 at the specification key \<open>Price \<close> meeting the standard column \<open>Price\<close>.\<close>

theorem add_spec_appends_witness:
  "map_of (add_spec (''Price '', ''12'') (initial_row (c6_record\<lparr>price := Some ''10 USD''\<rparr>))) ''Price''
     = Some (Some ''10 USD; 12'')"
proof -
  have k: "clean_text_for_csv (Some ''Price '') = ''Price''"
    by (simp add: clean_text_for_csv_Some strip_def isspace_def)
  have v: "clean_text_for_csv (Some ''12'') = ''12''"
    by (simp add: clean_text_for_csv_Some strip_def isspace_def)
  have c: "clean_text_for_csv (Some ''10 USD'') = ''10 USD''"
    by (simp add: clean_text_for_csv_Some strip_def isspace_def)
  have h1: "clean_text_for_csv (Some ''Price '') \<noteq> []" by (simp add: k)
  have h2: "map_of (initial_row (c6_record\<lparr>price := Some ''10 USD''\<rparr>)) (clean_text_for_csv (Some ''Price ''))
      = Some (Some ''10 USD'')"
    by (simp add: k c initial_row_def c6_record_def)
  show ?thesis
    using add_spec_appends [OF h1 h2, of "''12''"] by (simp add: k v c)
qed

text \<open>
  Claim C6 as stated (the new value is appended to the existing cell) fails where the
  existing cell is not clean: the \<open>URL\<close> cell \<open>a  b\<close> becomes \<open>a b; x\<close>.
\<close>

theorem add_spec_appends_counterexample:
  "map_of (initial_row c6_record) ''URL'' = Some (Some ''a  b'')
   \<and> map_of (build_row c6_record) ''URL'' = Some (Some ''a b; x'')
   \<and> ''a b; x'' \<noteq> ''a  b'' @ ''; '' @ clean_text_for_csv (Some ''x'')"
  by code_simp

section \<open>Extraction: pages without specification structures\<close>

lemma section_loop_none:
  "\<forall>selector \<in> set selectors. page d selector = [] \<Longrightarrow>
   section_loop d selectors (specs, found) = (specs, found)"
  by (induction selectors) (simp_all add: find_element_def)

lemma method1_none:
  "\<forall>selector \<in> set selectors. page d selector = [] \<Longrightarrow> method1 d selectors specs = specs"
  by (induction selectors) (simp_all add: find_element_def)

lemma method2_none:
  "\<forall>selector \<in> set selectors. page d selector = [] \<Longrightarrow> method2 d selectors [] = []"
  by (induction selectors) simp_all

lemma method5_fold_none:
  "\<forall>selector \<in> set selectors. page d selector = [] \<Longrightarrow>
      fold (\<lambda>selector specs.
             case find_element (page d) selector of
               None \<Rightarrow> specs
             | Some spec_section \<Rightarrow> fold accordion_row (query spec_section ''.//tr'') specs)
       selectors specs = specs"
  by (induction selectors arbitrary: specs) (simp_all add: find_element_def)

lemma method5_none:
  "\<forall>selector \<in> set accordion_selectors. page d selector = [] \<Longrightarrow> method5 d specs = specs"
  by (simp add: method5_def method5_fold_none)

lemma no_structure_page:
  "no_structure d \<Longrightarrow> selector \<in> set spec_queries \<Longrightarrow> page d selector = []"
  by (simp add: no_structure_def)

lemma spec_queries_single:
  "spec_table_xpath \<in> set spec_queries" "spec_items_xpath \<in> set spec_queries"
  "spec_lists_xpath \<in> set spec_queries" "generic_divs_xpath \<in> set spec_queries"
  "json_ld_xpath \<in> set spec_queries" "''//table'' \<in> set spec_queries"
  "text_elements_xpath \<in> set spec_queries" "data_elements_xpath \<in> set spec_queries"
  by (simp_all add: spec_queries_def)

lemma spec_queries_lists:
  "set spec_section_selectors \<subseteq> set spec_queries" "set spec_selectors \<subseteq> set spec_queries"
  "set dl_selectors \<subseteq> set spec_queries" "set accordion_selectors \<subseteq> set spec_queries"
  by (auto simp add: spec_queries_def)

lemma no_structure_list:
  "no_structure d \<Longrightarrow> set xs \<subseteq> set spec_queries \<Longrightarrow> \<forall>selector \<in> set xs. page d selector = []"
  by (meson no_structure_page subsetD)

lemma no_structure_method0: "no_structure d \<Longrightarrow> method0 d [] = []"
  by (simp only: method0_def no_structure_page [OF _ spec_queries_single(1)] spec_table_uls.simps)

lemma no_structure_section_loop:
  "no_structure d \<Longrightarrow> section_loop d spec_section_selectors (specs, found) = (specs, found)"
  by (rule section_loop_none) (rule no_structure_list [OF _ spec_queries_lists(1)])

lemma no_structure_method1: "no_structure d \<Longrightarrow> method1 d spec_selectors [] = []"
  by (rule method1_none) (rule no_structure_list [OF _ spec_queries_lists(2)])

lemma no_structure_method2: "no_structure d \<Longrightarrow> method2 d dl_selectors [] = []"
  by (rule method2_none) (rule no_structure_list [OF _ spec_queries_lists(3)])

lemma no_structure_method3: "no_structure d \<Longrightarrow> method3 d [] = []"
  by (simp only: method3_def no_structure_page [OF _ spec_queries_single(2)] fold.simps id_apply)

lemma no_structure_method4: "no_structure d \<Longrightarrow> method4 d [] = []"
  by (simp only: method4_def no_structure_page [OF _ spec_queries_single(3)] fold.simps id_apply)

lemma no_structure_method5: "no_structure d \<Longrightarrow> method5 d [] = []"
  by (rule method5_none) (rule no_structure_list [OF _ spec_queries_lists(4)])

lemma no_structure_method6: "no_structure d \<Longrightarrow> method6 d [] = []"
  by (simp only: method6_def no_structure_page [OF _ spec_queries_single(4)] fold.simps id_apply)

lemma no_structure_method7: "no_structure d \<Longrightarrow> method7 d [] = []"
  by (simp only: method7_def no_structure_page [OF _ spec_queries_single(5)] fold.simps id_apply)

lemma no_structure_method8: "no_structure d \<Longrightarrow> method8 d [] = []"
  by (simp only: method8_def no_structure_page [OF _ spec_queries_single(6)] any_tables.simps)

lemma no_structure_method9: "no_structure d \<Longrightarrow> method9 d [] = []"
  by (simp only: method9_def no_structure_page [OF _ spec_queries_single(7)] fold.simps id_apply)

lemma no_structure_method10: "no_structure d \<Longrightarrow> method10 d [] = []"
  by (simp only: method10_def no_structure_page [OF _ spec_queries_single(8)] fold.simps id_apply)

lemma no_structure_later_methods:
  "no_structure d \<Longrightarrow> later_methods d [] = []"
  by (simp only: later_methods_def unless_found_def Let_def no_structure_method1
      no_structure_method2 no_structure_method3 no_structure_method4 no_structure_method5
      no_structure_method6 no_structure_method7 no_structure_method8 no_structure_method9
      no_structure_method10 if_True simp_thms)

lemma no_structure_body:
  assumes "no_structure d"
  shows "extract_body d =
     Inr ((extract_scalars d)\<lparr>specifications := [],
            availability := map_option (\<lambda>e. strip (elem_text e))
                              (first_found (page d) availability_selectors)\<rparr>)"
  by (simp only: extract_body_def Let_def no_structure_method0 [OF assms] if_True simp_thms
      no_structure_section_loop [OF assms] prod.case option.case
      no_structure_later_methods [OF assms])

text \<open>
  Claim C4. On a page where no query of a specification strategy finds an element, the
  body of \<open>extract_product_data\<close> ends normally (no exception reaches even its own
  handler), the function returns the record, and the specification dictionary of that
  record is empty.
\<close>

theorem extract_no_structure:
  "no_structure d \<Longrightarrow>
     (\<exists>pd. extract_body d = Inr pd \<and> extract_product_data d = pd)
     \<and> specifications (extract_product_data d) = []"
  by (simp add: no_structure_body extract_product_data_def)

text \<open>Claim C4 at a page that has a title and nothing else.\<close>

theorem extract_no_structure_witness:
  "no_structure title_only_page
   \<and> specifications (extract_product_data title_only_page) = []
   \<and> product_name (extract_product_data title_only_page) = Some ''Beaker 250 mL''"
proof -
  have h: "no_structure title_only_page"
    by code_simp
  have "product_name (extract_product_data title_only_page) = Some ''Beaker 250 mL''"
    by code_simp
  then show ?thesis using h extract_no_structure [OF h] by simp
qed

section \<open>Extraction: the order of the strategies\<close>

text \<open>
  Claim C1, evaluated. On a page where Method 0 finds \<open>Purity: 99%\<close> in the
  \<open>ul.spec-table\<close> list, and the section headed
  \<open>Product Details & Documents and Specifications\<close> holds a table with the row
  \<open>Grade | ACS\<close>, Method 0 alone yields the single pair \<open>Purity\<close>, but the record returned
  by \<open>extract_product_data\<close> also holds the pair \<open>Grade\<close> written by the scan of the
  labelled section, which runs although the dictionary is not empty.
\<close>

theorem extract_after_spec_table:
  "method0 spec_list_and_section [] = [(''Purity'', ''99%'')]
   \<and> specifications (extract_product_data spec_list_and_section) =
       [(''Purity'', ''99%''), (''Grade'', ''ACS'')]"
  by code_simp

section \<open>Extraction: the free-text strategy\<close>

text \<open>
  Claim C7, evaluated. The line \<open>Price - 10 USD\<close> is admitted by the branch of Method 9
  that splits on \<open> - \<close>, although its key contains the stop term \<open>price\<close>; the same pair
  written with a colon is rejected by the other branch.
\<close>

theorem text_line_dash_keeps_stop_term:
  "text_line ''Price - 10 USD'' [] = [(''Price'', ''10 USD'')]
   \<and> contains ''price'' (lower ''Price'')
   \<and> text_line ''Price: 10 USD'' [] = []
   \<and> specifications (extract_product_data price_line_page) = [(''Price'', ''10 USD'')]"
  by code_simp

section \<open>Extraction: the keys of the dictionary\<close>

text \<open>Stripping a stripped string changes nothing.\<close>

lemma strip_strip: "strip (strip s) = strip s"
proof -
  define t where "t = dropWhile isspace s"
  define u where "u = rev (dropWhile isspace (rev t))"
  have tu: "t = u @ rev (takeWhile isspace (rev t))"
    unfolding u_def by (metis rev_append rev_rev_ident takeWhile_dropWhile_id)
  have "dropWhile isspace u = u"
  proof (cases u)
    case Nil
    then show ?thesis by simp
  next
    case (Cons c cs)
    from tu Cons obtain r where "t = c # r" by simp
    then have "t \<noteq> []" "hd t = c" by simp_all
    then have "\<not> isspace c"
      unfolding t_def using hd_dropWhile by metis
    with Cons show ?thesis by simp
  qed
  moreover have "dropWhile isspace (rev u) = rev u"
    unfolding u_def by simp
  ultimately show ?thesis
    by (simp add: strip_def t_def [symmetric] u_def [symmetric])
qed

lemma trimmed_Nil: "trimmed []"
  by (simp add: trimmed_def dict_keys_def)

lemma trimmed_dict_set: "trimmed specs \<Longrightarrow> strip k = k \<Longrightarrow> trimmed (dict_set k v specs)"
  by (simp add: trimmed_def dict_keys_dict_set)

lemma trimmed_strip: "trimmed specs \<Longrightarrow> trimmed (dict_set (strip k) v specs)"
  by (simp add: trimmed_dict_set strip_strip)

lemma trimmed_fold:
  "(\<And>x s. trimmed s \<Longrightarrow> trimmed (f x s)) \<Longrightarrow> trimmed s \<Longrightarrow> trimmed (fold f xs s)"
  by (induction xs arbitrary: s) simp_all

lemma row_cells_strip: "row_cells row = Some (key, val) \<Longrightarrow> strip key = key"
  by (auto simp add: row_cells_def strip_strip split: list.splits)

lemma trimmed_spec_table_item: "trimmed specs \<Longrightarrow> trimmed (spec_table_item li specs)"
  by (simp add: spec_table_item_def Let_def trimmed_strip trimmed_dict_set strip_strip
      split: list.splits)

lemma trimmed_spec_table_uls: "trimmed specs \<Longrightarrow> trimmed (spec_table_uls uls specs)"
  by (induction uls arbitrary: specs)
    (simp_all add: Let_def trimmed_fold trimmed_spec_table_item trimmed_Nil)

lemma trimmed_method0: "trimmed specs \<Longrightarrow> trimmed (method0 d specs)"
  by (simp add: method0_def trimmed_spec_table_uls)

lemma trimmed_section_table_row: "trimmed specs \<Longrightarrow> trimmed (section_table_row row specs)"
  by (auto simp add: section_table_row_def trimmed_dict_set row_cells_strip split: option.splits)

lemma trimmed_spec_table_row: "trimmed specs \<Longrightarrow> trimmed (spec_table_row row specs)"
  by (auto simp add: spec_table_row_def trimmed_dict_set row_cells_strip split: option.splits)

lemma trimmed_accordion_row: "trimmed specs \<Longrightarrow> trimmed (accordion_row row specs)"
  by (auto simp add: accordion_row_def trimmed_dict_set row_cells_strip split: option.splits)

lemma trimmed_any_table_row: "trimmed specs \<Longrightarrow> trimmed (any_table_row row specs)"
  by (auto simp add: any_table_row_def trimmed_dict_set row_cells_strip split: option.splits)

lemma trimmed_dl_pairs: "trimmed specs \<Longrightarrow> trimmed (dl_pairs dl specs)"
  unfolding dl_pairs_def
  by (rule trimmed_fold) (auto simp add: Let_def trimmed_strip)

lemma trimmed_section_line: "trimmed specs \<Longrightarrow> trimmed (section_line line specs)"
  by (simp add: section_line_def Let_def trimmed_strip split: list.splits)

lemma trimmed_colon_line: "trimmed specs \<Longrightarrow> trimmed (colon_line line specs)"
  by (simp add: colon_line_def Let_def trimmed_strip split: list.splits)

lemma trimmed_list_item: "trimmed specs \<Longrightarrow> trimmed (list_item li specs)"
  by (simp add: list_item_def Let_def trimmed_strip split: list.splits)

lemma trimmed_generic_line: "trimmed specs \<Longrightarrow> trimmed (generic_line line specs)"
  by (simp add: generic_line_def Let_def trimmed_strip split: list.splits)

lemma trimmed_text_line: "trimmed specs \<Longrightarrow> trimmed (text_line line specs)"
  by (simp add: text_line_def Let_def trimmed_strip split: list.splits)

lemma trimmed_spec_item: "trimmed specs \<Longrightarrow> trimmed (spec_item item specs)"
  by (simp add: spec_item_def Let_def trimmed_strip split: list.splits)

lemma trimmed_section_parent: "trimmed specs \<Longrightarrow> trimmed (section_parent parent specs)"
proof -
  assume t: "trimmed specs"
  have rows: "\<And>table s. trimmed s \<Longrightarrow> trimmed (fold section_table_row (query table ''.//tr'') s)"
    by (rule trimmed_fold) (simp_all add: trimmed_section_table_row)
  have s1: "trimmed (fold (\<lambda>table. fold section_table_row (query table ''.//tr''))
                 (query parent ''.//table'') specs)"
    by (rule trimmed_fold) (simp_all add: rows t)
  have s2: "\<And>s. trimmed s \<Longrightarrow> trimmed (fold dl_pairs (query parent ''.//dl'') s)"
    by (rule trimmed_fold) (simp_all add: trimmed_dl_pairs)
  have s3: "\<And>s. trimmed s \<Longrightarrow>
      trimmed (fold section_line (split [CHR 0x0A] (elem_text parent)) s)"
    by (rule trimmed_fold) (simp_all add: trimmed_section_line)
  show ?thesis
    by (simp add: section_parent_def Let_def s1 s2 s3 trimmed_Nil)
qed

lemma trimmed_section_siblings: "trimmed specs \<Longrightarrow> trimmed (section_siblings e specs)"
proof -
  assume t: "trimmed specs"
  have lines: "\<And>ls s. trimmed s \<Longrightarrow> trimmed (fold colon_line ls s)"
    by (rule trimmed_fold) (simp_all add: trimmed_colon_line)
  show ?thesis
    unfolding section_siblings_def
    by (rule trimmed_fold) (simp_all add: Let_def lines t)
qed

lemma trimmed_section_loop:
  "trimmed specs \<Longrightarrow> trimmed (fst (section_loop d selectors (specs, found)))"
  by (induction selectors arbitrary: specs found)
    (simp_all add: Let_def trimmed_section_parent trimmed_section_siblings trimmed_Nil
      split: option.splits)

lemma trimmed_method1: "trimmed specs \<Longrightarrow> trimmed (method1 d selectors specs)"
proof (induction selectors arbitrary: specs)
  case Nil
  then show ?case by simp
next
  case (Cons selector selectors)
  have "\<And>e. trimmed (fold spec_table_row (query e ''.//tr'') specs)"
    by (rule trimmed_fold) (simp_all add: trimmed_spec_table_row Cons.prems)
  with Cons show ?case
    by (simp add: Let_def trimmed_Nil split: option.splits)
qed

lemma trimmed_method2: "trimmed specs \<Longrightarrow> trimmed (method2 d selectors specs)"
proof (induction selectors arbitrary: specs)
  case Nil
  then show ?case by simp
next
  case (Cons selector selectors)
  have "trimmed (fold dl_pairs (page d selector) specs)"
    by (rule trimmed_fold) (simp_all add: trimmed_dl_pairs Cons.prems)
  with Cons show ?case
    by (simp add: Let_def trimmed_Nil)
qed

lemma trimmed_method3: "trimmed specs \<Longrightarrow> trimmed (method3 d specs)"
  unfolding method3_def by (rule trimmed_fold) (simp_all add: trimmed_spec_item)

lemma trimmed_method4: "trimmed specs \<Longrightarrow> trimmed (method4 d specs)"
proof -
  assume t: "trimmed specs"
  have items: "\<And>ul s. trimmed s \<Longrightarrow> trimmed (fold list_item (query ul ''.//li'') s)"
    by (rule trimmed_fold) (simp_all add: trimmed_list_item)
  show ?thesis
    unfolding method4_def by (rule trimmed_fold) (simp_all add: items t)
qed

lemma trimmed_method5: "trimmed specs \<Longrightarrow> trimmed (method5 d specs)"
proof -
  assume t: "trimmed specs"
  have rows: "\<And>e s. trimmed s \<Longrightarrow> trimmed (fold accordion_row (query e ''.//tr'') s)"
    by (rule trimmed_fold) (simp_all add: trimmed_accordion_row)
  show ?thesis
    unfolding method5_def
    by (rule trimmed_fold) (simp_all add: rows t split: option.splits)
qed

lemma trimmed_method6: "trimmed specs \<Longrightarrow> trimmed (method6 d specs)"
proof -
  assume t: "trimmed specs"
  have lines: "\<And>ls s. trimmed s \<Longrightarrow> trimmed (fold generic_line ls s)"
    by (rule trimmed_fold) (simp_all add: trimmed_generic_line)
  show ?thesis
    unfolding method6_def by (rule trimmed_fold) (simp_all add: lines t)
qed

lemma trimmed_any_tables: "trimmed specs \<Longrightarrow> trimmed (any_tables tables specs)"
proof (induction tables arbitrary: specs)
  case Nil
  then show ?case by simp
next
  case (Cons table tables)
  have "trimmed (fold any_table_row (query table ''.//tr'') specs)"
    by (rule trimmed_fold) (simp_all add: trimmed_any_table_row Cons.prems)
  with Cons show ?case
    by (simp add: Let_def trimmed_Nil)
qed

lemma trimmed_method8: "trimmed specs \<Longrightarrow> trimmed (method8 d specs)"
  by (simp add: method8_def trimmed_any_tables)

lemma trimmed_method9: "trimmed specs \<Longrightarrow> trimmed (method9 d specs)"
proof -
  assume t: "trimmed specs"
  have lines: "\<And>ls s. trimmed s \<Longrightarrow> trimmed (fold text_line ls s)"
    by (rule trimmed_fold) (simp_all add: trimmed_text_line)
  show ?thesis
    unfolding method9_def by (rule trimmed_fold) (simp_all add: lines t)
qed

subsection \<open>The guarded strategies\<close>

lemma trimmed_unless_found:
  "trimmed specs \<Longrightarrow> (\<And>s. trimmed s \<Longrightarrow> trimmed (method s)) \<Longrightarrow>
   trimmed (unless_found method specs)"
  by (simp add: unless_found_def trimmed_Nil)

lemma unless_found_keep: "specs \<noteq> [] \<Longrightarrow> unless_found method specs = specs"
  by (simp add: unless_found_def)

lemma unless_found_run: "unless_found method [] = method []"
  by (simp add: unless_found_def)

lemma trimmed_methods_1_to_6:
  assumes "trimmed specs"
  shows "trimmed (unless_found (method6 d) (unless_found (method5 d) (unless_found (method4 d)
           (unless_found (method3 d) (unless_found (method2 d dl_selectors)
              (method1 d spec_selectors specs))))))"
  by (intro trimmed_unless_found trimmed_method1 trimmed_method2 trimmed_method3
      trimmed_method4 trimmed_method5 trimmed_method6 assms)

lemma trimmed_before_method1:
  "trimmed (fst (section_loop d spec_section_selectors
                  (method0 d [], if method0 d [] = [] then Some False else None)))"
  by (rule trimmed_section_loop) (rule trimmed_method0 [OF trimmed_Nil])

lemma extract_specifications:
  "specifications (extract_product_data d) =
     (let st = section_loop d spec_section_selectors
                 (method0 d [], if method0 d [] = [] then Some False else None)
      in case snd st of None \<Rightarrow> fst st | Some _ \<Rightarrow> later_methods d (fst st))"
  by (simp add: extract_product_data_def extract_body_def Let_def
      split: prod.splits option.splits)

subsection \<open>Method 10 and the names of attributes\<close>

lemma trimmed_fold_set:
  "(\<And>x s. x \<in> set xs \<Longrightarrow> trimmed s \<Longrightarrow> trimmed (f x s)) \<Longrightarrow> trimmed s \<Longrightarrow>
   trimmed (fold f xs s)"
  by (induction xs arbitrary: s) simp_all

lemma trimmed_data_attribute:
  "strip (fst attr) = fst attr \<Longrightarrow> trimmed s \<Longrightarrow> trimmed (data_attribute attr s)"
  by (simp add: data_attribute_def trimmed_dict_set)

lemma trimmed_method10:
  assumes a: "attribute_names_trimmed d" and t: "trimmed s"
  shows "trimmed (method10 d s)"
  unfolding method10_def
proof (rule trimmed_fold_set [OF _ t])
  fix elem s'
  assume e: "elem \<in> set (page d data_elements_xpath)" and t': "trimmed s'"
  show "trimmed (fold data_attribute (attributes elem) s')"
  proof (rule trimmed_fold_set [OF _ t'])
    fix attr s''
    assume "attr \<in> set (attributes elem)" and "trimmed s''"
    with a e show "trimmed (data_attribute attr s'')"
      by (simp add: attribute_names_trimmed_def trimmed_data_attribute)
  qed
qed

lemma methods_7_to_10_trimmed:
  assumes a: "attribute_names_trimmed d" and t: "trimmed s6"
  shows "unless_found (method10 d) (unless_found (method9 d) (unless_found (method8 d)
           (unless_found (method7 d) s6))) = method7 d []
       \<or> trimmed (unless_found (method10 d) (unless_found (method9 d)
           (unless_found (method8 d) (unless_found (method7 d) s6))))"
proof (cases "trimmed (unless_found (method7 d) s6)")
  case True
  then have "trimmed (unless_found (method8 d) (unless_found (method7 d) s6))"
    by (rule trimmed_unless_found) (rule trimmed_method8)
  then have "trimmed (unless_found (method9 d) (unless_found (method8 d)
           (unless_found (method7 d) s6)))"
    by (rule trimmed_unless_found) (rule trimmed_method9)
  then have "trimmed (unless_found (method10 d) (unless_found (method9 d)
           (unless_found (method8 d) (unless_found (method7 d) s6))))"
    by (rule trimmed_unless_found) (rule trimmed_method10 [OF a])
  then show ?thesis ..
next
  case False
  then have ne: "unless_found (method7 d) s6 \<noteq> []"
    using trimmed_Nil by auto
  have "s6 = []"
  proof (rule ccontr)
    assume "s6 \<noteq> []"
    then have "unless_found (method7 d) s6 = s6" by (rule unless_found_keep)
    with t False show False by simp
  qed
  then have s7: "unless_found (method7 d) s6 = method7 d []"
    by (simp add: unless_found_run)
  with ne have "method7 d [] \<noteq> []" by simp
  then show ?thesis
    by (simp add: s7 unless_found_keep)
qed

lemma later_methods_trimmed:
  assumes "attribute_names_trimmed d" and "trimmed specs"
  shows "later_methods d specs = method7 d [] \<or> trimmed (later_methods d specs)"
  using methods_7_to_10_trimmed [OF assms(1) trimmed_methods_1_to_6 [OF assms(2)], of d]
  by (simp only: later_methods_def Let_def)

lemma extract_trimmed:
  assumes a: "attribute_names_trimmed d"
  shows "specifications (extract_product_data d) = method7 d []
         \<or> trimmed (specifications (extract_product_data d))"
proof -
  define st where "st = section_loop d spec_section_selectors
                 (method0 d [], if method0 d [] = [] then Some False else None)"
  have t: "trimmed (fst st)"
    unfolding st_def by (rule trimmed_before_method1)
  have s: "specifications (extract_product_data d) =
      (case snd st of None \<Rightarrow> fst st | Some _ \<Rightarrow> later_methods d (fst st))"
    by (simp only: extract_specifications st_def Let_def)
  show ?thesis
  proof (cases "snd st")
    case None
    with s t show ?thesis by simp
  next
    case (Some found)
    with s later_methods_trimmed [OF a t] show ?thesis by simp
  qed
qed

subsection \<open>No strategy removes a key\<close>

lemma keys_dict_set: "dict_keys s \<subseteq> dict_keys (dict_set k v s)"
  by (auto simp add: dict_keys_dict_set)

lemma keys_fold:
  "(\<And>x s. dict_keys s \<subseteq> dict_keys (f x s)) \<Longrightarrow> dict_keys s \<subseteq> dict_keys (fold f xs s)"
proof (induction xs arbitrary: s)
  case Nil
  then show ?case by simp
next
  case (Cons x xs)
  have "dict_keys s \<subseteq> dict_keys (f x s)" by (rule Cons.prems)
  also have "\<dots> \<subseteq> dict_keys (fold f xs (f x s))" by (rule Cons.IH) (rule Cons.prems)
  finally show ?case by simp
qed

lemma keys_section_table_row: "dict_keys s \<subseteq> dict_keys (section_table_row row s)"
  by (simp add: section_table_row_def keys_dict_set split: option.splits)

lemma keys_spec_table_row: "dict_keys s \<subseteq> dict_keys (spec_table_row row s)"
  by (simp add: spec_table_row_def keys_dict_set split: option.splits)

lemma keys_dl_pairs: "dict_keys s \<subseteq> dict_keys (dl_pairs dl s)"
  unfolding dl_pairs_def
  by (rule keys_fold) (simp add: Let_def keys_dict_set split: prod.splits)

lemma keys_section_line: "dict_keys s \<subseteq> dict_keys (section_line line s)"
  by (simp add: section_line_def Let_def keys_dict_set split: list.splits)

lemma keys_colon_line: "dict_keys s \<subseteq> dict_keys (colon_line line s)"
  by (simp add: colon_line_def Let_def keys_dict_set split: list.splits)

lemma keys_section_parent: "dict_keys s \<subseteq> dict_keys (section_parent parent s)"
proof -
  define s1 where "s1 = fold (\<lambda>table. fold section_table_row (query table ''.//tr''))
                 (query parent ''.//table'') s"
  define s2 where "s2 = (if s1 = [] then fold dl_pairs (query parent ''.//dl'') s1 else s1)"
  define s3 where "s3 = (if s2 = [] then fold section_line (split [CHR 0x0A] (elem_text parent)) s2
                else s2)"
  have "dict_keys s \<subseteq> dict_keys s1"
    unfolding s1_def by (rule keys_fold) (rule keys_fold, rule keys_section_table_row)
  also have "dict_keys s1 \<subseteq> dict_keys s2"
    unfolding s2_def by (simp add: keys_fold keys_dl_pairs)
  also have "dict_keys s2 \<subseteq> dict_keys s3"
    unfolding s3_def by (simp add: keys_fold keys_section_line)
  finally show ?thesis
    by (simp only: section_parent_def Let_def s1_def s2_def s3_def)
qed

lemma keys_section_siblings: "dict_keys s \<subseteq> dict_keys (section_siblings e s)"
  unfolding section_siblings_def
  by (rule keys_fold) (simp add: Let_def keys_fold keys_colon_line)

lemma keys_section_loop:
  "dict_keys s \<subseteq> dict_keys (fst (section_loop d selectors (s, found)))"
proof (induction selectors arbitrary: s found)
  case Nil
  then show ?case by simp
next
  case (Cons selector selectors)
  show ?case
  proof (cases "find_element (page d) selector")
    case None
    then show ?thesis using Cons.IH [of s found] by simp
  next
    case (Some e)
    define s' where "s' = (case find_element (query e)
                       ''./ancestor::*[contains(@class, 'accordion') or contains(@class, 'panel') or contains(@class, 'tab-content')][1]'' of
                  Some parent \<Rightarrow> section_parent parent s
                | None \<Rightarrow> section_siblings e s)"
    have k: "dict_keys s \<subseteq> dict_keys s'"
      unfolding s'_def by (simp add: keys_section_parent keys_section_siblings split: option.splits)
    have k2: "dict_keys s \<subseteq> dict_keys (fst (section_loop d selectors (s', Some True)))"
      using k Cons.IH [of s' "Some True"] by (rule subset_trans)
    show ?thesis
    proof (cases "tag_name e \<in> set [''button'', ''a''] \<and> \<not> activates e")
      case True
      then show ?thesis using Some Cons.IH [of s found] by simp
    next
      case False
      then show ?thesis using Some k k2
        by (auto simp add: Let_def s'_def [symmetric])
    qed
  qed
qed

lemma keys_method1: "dict_keys s \<subseteq> dict_keys (method1 d selectors s)"
proof (induction selectors arbitrary: s)
  case Nil
  then show ?case by simp
next
  case (Cons selector selectors)
  show ?case
  proof (cases "find_element (page d) selector")
    case None
    then show ?thesis using Cons.IH [of s] by simp
  next
    case (Some e)
    define s' where "s' = fold spec_table_row (query e ''.//tr'') s"
    have k: "dict_keys s \<subseteq> dict_keys s'"
      unfolding s'_def by (rule keys_fold) (rule keys_spec_table_row)
    have k2: "dict_keys s \<subseteq> dict_keys (method1 d selectors s')"
      using k Cons.IH [of s'] by (rule subset_trans)
    show ?thesis using Some k k2
      by (auto simp add: Let_def s'_def [symmetric])
  qed
qed

lemma keys_unless_found:
  "dict_keys s \<subseteq> dict_keys (unless_found method s)"
  by (simp add: unless_found_def dict_keys_def)

lemma keys_unless_found_trans:
  "A \<subseteq> dict_keys s \<Longrightarrow> A \<subseteq> dict_keys (unless_found method s)"
  by (rule subset_trans [OF _ keys_unless_found])

lemma keys_later_methods: "dict_keys s \<subseteq> dict_keys (later_methods d s)"
  unfolding later_methods_def Let_def
  by (intro keys_unless_found_trans keys_method1)

lemma extract_keeps_method0:
  "dict_keys (method0 d []) \<subseteq> dict_keys (specifications (extract_product_data d))"
proof -
  define found0 where "found0 = (if method0 d [] = [] then Some False else None)"
  define st where "st = section_loop d spec_section_selectors (method0 d [], found0)"
  have k: "dict_keys (method0 d []) \<subseteq> dict_keys (fst st)"
    unfolding st_def by (rule keys_section_loop)
  have s: "specifications (extract_product_data d) =
      (case snd st of None \<Rightarrow> fst st | Some _ \<Rightarrow> later_methods d (fst st))"
    by (simp only: extract_specifications st_def found0_def Let_def)
  show ?thesis
  proof (cases "snd st")
    case None
    with s k show ?thesis by simp
  next
    case (Some found)
    have "dict_keys (fst st) \<subseteq> dict_keys (later_methods d (fst st))"
      by (rule keys_later_methods)
    with k have "dict_keys (method0 d []) \<subseteq> dict_keys (later_methods d (fst st))"
      by (rule subset_trans)
    with s Some show ?thesis by simp
  qed
qed

subsection \<open>The keys of Method 0\<close>

lemma dict_keys_Nil: "dict_keys [] = {}"
  by (simp add: dict_keys_def)

lemma spec_table_item_keys:
  "dict_keys (spec_table_item li s) \<subseteq> dict_keys s \<union> name_key ` set (item_names li)"
  by (auto simp add: spec_table_item_def item_names_def name_key_def Let_def dict_keys_dict_set
      split: list.splits)

lemma fold_spec_table_item_keys:
  "dict_keys (fold spec_table_item lis s)
     \<subseteq> dict_keys s \<union> name_key ` set (concat (map item_names lis))"
proof (induction lis arbitrary: s)
  case Nil
  then show ?case by simp
next
  case (Cons li lis)
  have "dict_keys (fold spec_table_item lis (spec_table_item li s))
     \<subseteq> dict_keys (spec_table_item li s) \<union> name_key ` set (concat (map item_names lis))"
    by (rule Cons.IH)
  with spec_table_item_keys [of li s] show ?case by auto
qed

lemma spec_table_uls_keys:
  "dict_keys (spec_table_uls uls s)
     \<subseteq> dict_keys s
       \<union> name_key ` set (concat (map (\<lambda>ul. concat (map item_names (query ul ''.//li''))) uls))"
proof (induction uls arbitrary: s)
  case Nil
  then show ?case by simp
next
  case (Cons ul uls)
  define s' where "s' = fold spec_table_item (query ul ''.//li'') s"
  have a: "dict_keys s' \<subseteq> dict_keys s \<union> name_key ` set (concat (map item_names (query ul ''.//li'')))"
    unfolding s'_def by (rule fold_spec_table_item_keys)
  have b: "dict_keys (spec_table_uls uls s')
     \<subseteq> dict_keys s'
       \<union> name_key ` set (concat (map (\<lambda>ul. concat (map item_names (query ul ''.//li''))) uls))"
    by (rule Cons.IH)
  have c: "spec_table_uls (ul # uls) s = (if s' \<noteq> [] then s' else spec_table_uls uls s')"
    by (simp add: Let_def s'_def)
  have d: "set (concat (map (\<lambda>ul. concat (map item_names (query ul ''.//li''))) (ul # uls)))
      = set (concat (map item_names (query ul ''.//li'')))
        \<union> set (concat (map (\<lambda>ul. concat (map item_names (query ul ''.//li''))) uls))"
    by simp
  from a b show ?case
    unfolding c d image_Un by (cases "s' = []") auto
qed

lemma method0_keys: "dict_keys (method0 d []) \<subseteq> name_key ` set (name_texts d)"
  using spec_table_uls_keys [of "page d spec_table_xpath" "[]"]
  by (simp add: method0_def name_texts_def dict_keys_Nil)

lemma name_key_colon:
  "endswith (name_key t) '':'' \<Longrightarrow>
     endswith (strip t) '':'' \<and> name_key t = strip (butlast (strip t))"
  by (auto simp add: name_key_def Let_def split: if_splits)

text \<open>
  Claim C2, as the code has it. On a page whose attribute names have no whitespace at
  either end, the dictionary that \<open>extract_product_data\<close> returns is the one written by
  the JSON-LD strategy (Method 7) from the empty dictionary, which stores the names of
  the members as they are written, or else every key of it is free of whitespace at both
  ends. Every key stored by Method 0 is a key of the returned dictionary, and it is made
  of the text of a name cell by stripping it, cutting off one colon at its end if there
  is one, and stripping again. Such a key ends with a colon only when the text ends with
  a colon and, that colon cut off, still ends with one.
\<close>

theorem extract_keys:
  "(attribute_names_trimmed d \<longrightarrow>
      specifications (extract_product_data d) = method7 d []
      \<or> trimmed (specifications (extract_product_data d)))
   \<and> dict_keys (method0 d []) \<subseteq> dict_keys (specifications (extract_product_data d))
   \<and> dict_keys (method0 d []) \<subseteq> name_key ` set (name_texts d)
   \<and> (\<forall>t. endswith (name_key t) '':'' \<longrightarrow>
          endswith (strip t) '':'' \<and> endswith (strip (butlast (strip t))) '':'')"
proof (intro conjI allI impI)
  assume "attribute_names_trimmed d"
  then show "specifications (extract_product_data d) = method7 d []
      \<or> trimmed (specifications (extract_product_data d))"
    by (rule extract_trimmed)
next
  show "dict_keys (method0 d []) \<subseteq> dict_keys (specifications (extract_product_data d))"
    by (rule extract_keeps_method0)
next
  show "dict_keys (method0 d []) \<subseteq> name_key ` set (name_texts d)"
    by (rule method0_keys)
next
  fix t assume e: "endswith (name_key t) '':''"
  from name_key_colon [OF e] show "endswith (strip t) '':''" by simp
  from name_key_colon [OF e] e show "endswith (strip (butlast (strip t))) '':''" by simp
qed

text \<open>
  Claim C2 as amended, at the page with the list item \<open>Purity: 99%\<close> and the table row
  \<open>Grade | ACS\<close>: both keys are trimmed, the key \<open>Purity\<close> of Method 0 is returned and is
  the name text \<open>Purity:\<close> less its colon. The name text \<open>Purity::\<close> gives a key that ends
  with a colon.
\<close>

theorem extract_keys_witness:
  "attribute_names_trimmed spec_list_and_section
   \<and> specifications (extract_product_data spec_list_and_section)
       = [(''Purity'', ''99%''), (''Grade'', ''ACS'')]
   \<and> trimmed (specifications (extract_product_data spec_list_and_section))
   \<and> method0 spec_list_and_section [] = [(''Purity'', ''99%'')]
   \<and> dict_keys (method0 spec_list_and_section [])
       \<subseteq> dict_keys (specifications (extract_product_data spec_list_and_section))
   \<and> name_texts spec_list_and_section = [''Purity:'']
   \<and> dict_keys (method0 spec_list_and_section [])
       \<subseteq> name_key ` set (name_texts spec_list_and_section)
   \<and> endswith (name_key ''Purity::'') '':''
   \<and> endswith (strip (butlast (strip ''Purity::''))) '':''"
proof -
  note t = extract_keys [of spec_list_and_section]
  have a: "attribute_names_trimmed spec_list_and_section"
    by code_simp
  have r: "specifications (extract_product_data spec_list_and_section)
       = [(''Purity'', ''99%''), (''Grade'', ''ACS'')]"
    by code_simp
  have m7: "method7 spec_list_and_section [] = []"
    by code_simp
  have m0: "method0 spec_list_and_section [] = [(''Purity'', ''99%'')]"
    by code_simp
  have n: "name_texts spec_list_and_section = [''Purity:'']"
    by code_simp
  have e: "endswith (name_key ''Purity::'') '':''"
    by code_simp
  from t a have "specifications (extract_product_data spec_list_and_section)
        = method7 spec_list_and_section []
      \<or> trimmed (specifications (extract_product_data spec_list_and_section))"
    by blast
  with r m7 have tr: "trimmed (specifications (extract_product_data spec_list_and_section))"
    by simp
  from t have k1: "dict_keys (method0 spec_list_and_section [])
       \<subseteq> dict_keys (specifications (extract_product_data spec_list_and_section))"
    by blast
  from t have k2: "dict_keys (method0 spec_list_and_section [])
       \<subseteq> name_key ` set (name_texts spec_list_and_section)"
    by blast
  from t e have c: "endswith (strip (butlast (strip ''Purity::''))) '':''"
    by blast
  from a r tr m0 k1 n k2 e c show ?thesis
    by (intro conjI)
qed

text \<open>
  Claim C2 as stated fails. The key \<open>Purity:\<close> read from the first cell of a table row
  keeps its colon; the name cell \<open>Purity::\<close> of a \<open>ul.spec-table\<close> item loses one colon of
  its two; the name of a JSON-LD member is stored as it is written, here with a space on
  either side.
\<close>

theorem extract_keys_counterexample:
  "specifications (extract_product_data spec_table_page) = [(''Purity:'', ''99%'')]
   \<and> specifications (extract_product_data double_colon_page) = [(''Purity:'', ''99%'')]
   \<and> endswith ''Purity:'' '':''
   \<and> specifications (extract_product_data json_ld_page) = [('' sku '', ''A1'')]
   \<and> strip '' sku '' \<noteq> '' sku ''"
  by code_simp

section \<open>The CSV export: what it writes to\<close>

text \<open>
  Every assignment of \<open>save_to_csv\<close> goes to an object made during the call: a row, the
  list of rows, a cleaned row. The objects that exist before the call are the first
  \<open>length h\<close> objects of the store after it.
\<close>

lemma length_set_spec: "length (set_spec r kv h) = length h"
  by (simp add: set_spec_def split: option.splits object.splits)

lemma take_set_spec: "n \<le> r \<Longrightarrow> take n (set_spec r kv h) = take n h"
  by (simp add: set_spec_def split: option.splits object.splits)

lemma fold_set_spec:
  "n \<le> r \<Longrightarrow> take n (fold (set_spec r) kvs h) = take n h
     \<and> length (fold (set_spec r) kvs h) = length h"
  by (induction kvs arbitrary: h) (simp_all add: take_set_spec length_set_spec)

lemma append_row_frame:
  "n \<le> rows \<Longrightarrow> take n (append_row rows r h) = take n h
     \<and> length (append_row rows r h) = length h"
  by (simp add: append_row_def split: option.splits object.splits)

lemma flatten_frame:
  "n \<le> length h \<Longrightarrow> n \<le> rows \<Longrightarrow>
     take n (snd (flatten rows ps h)) = take n h \<and> length h \<le> length (snd (flatten rows ps h))"
proof (induction ps arbitrary: h)
  case Nil
  then show ?case by simp
next
  case (Cons p ps)
  show ?case
  proof (cases "\<exists>items s. lookup h p = Some (ProductDict items s)")
    case False
    then have "flatten rows (p # ps) h = (False, h)"
      by (auto split: option.splits object.splits)
    then show ?thesis by simp
  next
    case True
    then obtain items s where l: "lookup h p = Some (ProductDict items s)" by blast
    define h1 where "h1 = h @ [RowDict (initial_row (read_product h items s))]"
    define h2 where "h2 = fold (set_spec (length h)) (specifications (read_product h1 items s)) h1"
    define h3 where "h3 = append_row rows (length h) h2"
    have f: "flatten rows (p # ps) h = flatten rows ps h3"
      by (simp add: l alloc_def Let_def h1_def h2_def h3_def)
    have n1: "take n h1 = take n h" "length h1 = Suc (length h)"
      using Cons.prems by (simp_all add: h1_def)
    have n2: "take n h2 = take n h1" "length h2 = length h1"
      using fold_set_spec [OF Cons.prems(1)] by (simp_all add: h2_def)
    have n3: "take n h3 = take n h2" "length h3 = length h2"
      using append_row_frame [OF Cons.prems(2)] by (simp_all add: h3_def)
    have "n \<le> length h3" using n1 n2 n3 Cons.prems by simp
    from Cons.IH [OF this Cons.prems(2)] n1 n2 n3
    have "take n (snd (flatten rows ps h3)) = take n h
        \<and> length h \<le> length (snd (flatten rows ps h3))"
      by simp
    then show ?thesis
      by (simp only: f)
  qed
qed

lemma write_rows_frame:
  "n \<le> length h \<Longrightarrow> take n (write_rows names rows h) = take n h"
  unfolding write_rows_def
  by (induction rows arbitrary: h) (simp_all add: alloc_def)

lemma save_to_csv_store_frame:
  "take (length h) (snd (save_to_csv_store a filename stamp h)) = h"
proof -
  define products where "products = (case lookup h a of
                        Some (ProductDict items s) \<Rightarrow> [a]
                      | Some (ProductList ps) \<Rightarrow> ps
                      | _ \<Rightarrow> [])"
  obtain ok h2 where fl: "flatten (length h) products (h @ [RowList []]) = (ok, h2)"
    by (cases "flatten (length h) products (h @ [RowList []])")
  have "take (length h) (snd (flatten (length h) products (h @ [RowList []])))
          = take (length h) (h @ [RowList []])
        \<and> length (h @ [RowList []])
          \<le> length (snd (flatten (length h) products (h @ [RowList []])))"
    by (rule flatten_frame) simp_all
  then have t2: "take (length h) h2 = h" and l2: "length h \<le> length h2"
    by (simp_all add: fl)
  have t3: "take (length h) (write_rows names rows h2) = h" for names rows
    using write_rows_frame [OF l2] t2 by simp
  show ?thesis
    by (simp add: save_to_csv_store_def Let_def alloc_def products_def [symmetric] fl t2 t3
        split: option.splits)
qed

lemma lookup_take:
  assumes t: "take n h' = take n h" and n: "n \<le> length h" and a: "a < n"
  shows "lookup h' a = lookup h a"
proof -
  have "length (take n h') = length (take n h)" using t by simp
  with n have n': "n \<le> length h'" by simp
  have "h' ! a = take n h' ! a" using a by simp
  also have "\<dots> = take n h ! a" using t by simp
  also have "\<dots> = h ! a" using a by simp
  finally show ?thesis using a n n' by (simp add: lookup_def)
qed

lemma product_at_take:
  assumes t: "take (length h) h' = h"
    and l: "lookup h p = Some (ProductDict items s)" and s: "s < length h"
  shows "product_at h' p = product_at h p"
proof -
  have t': "take (length h) h' = take (length h) h" using t by simp
  from l have p: "p < length h" by (simp add: lookup_def split: if_splits)
  have lp: "lookup h' p = lookup h p"
    by (rule lookup_take [OF t' _ p]) simp
  have ls: "lookup h' s = lookup h s"
    by (rule lookup_take [OF t' _ s]) simp
  show ?thesis
    by (simp add: product_at_def lp l read_product_def ls)
qed

subsection \<open>The table of the store and the table of the records\<close>

text \<open>
  On a list of product dictionaries whose specification dictionaries are in the store,
  \<open>save_to_csv_store\<close> hands to the writer the table that \<open>save_to_csv\<close> makes of the
  records read from the store.
\<close>

lemma lookup_append: "a < length h \<Longrightarrow> lookup (h @ xs) a = lookup h a"
  by (simp add: lookup_def nth_append)

lemma lookup_length: "lookup (h @ x # xs) (length h) = Some x"
  by (simp add: lookup_def)

lemma read_product_append:
  "s < length h \<Longrightarrow> read_product (h @ xs) items s = read_product h items s"
  by (simp add: read_product_def lookup_append)

lemma fold_set_spec_row:
  "fold (set_spec (length h)) kvs (h @ [RowDict row]) = h @ [RowDict (fold add_spec kvs row)]"
proof (induction kvs arbitrary: row)
  case Nil
  then show ?case by simp
next
  case (Cons kv kvs)
  have "set_spec (length h) kv (h @ [RowDict row]) = h @ [RowDict (add_spec kv row)]"
    by (simp add: set_spec_def lookup_length)
  then show ?case
    by (simp add: Cons.IH)
qed

lemma append_row_rows:
  "append_row (length h) r (h @ RowList rs # xs) = h @ RowList (rs @ [r]) # xs"
  by (simp add: append_row_def lookup_length)

lemma flatten_products:
  assumes "\<forall>p \<in> set ps. \<exists>items s. lookup h p = Some (ProductDict items s) \<and> s < length h"
  shows "flatten (length h) ps
           (h @ RowList [Suc (length h) ..< Suc (length h) + length R] # map RowDict R)
         = (True, h @ RowList [Suc (length h) ..< Suc (length h) + length R + length ps]
                     # map RowDict (R @ map (\<lambda>p. build_row (the (product_at h p))) ps))"
  using assms
proof (induction ps arbitrary: R)
  case Nil
  then show ?case by simp
next
  case (Cons p ps)
  then obtain items s where l: "lookup h p = Some (ProductDict items s)" and s: "s < length h"
    by auto
  define rs where "rs = [Suc (length h) ..< Suc (length h) + length R]"
  define h' where "h' = h @ RowList rs # map RowDict R"
  define pd where "pd = read_product h items s"
  from l have p: "p < length h" by (simp add: lookup_def split: if_splits)
  have l': "lookup h' p = Some (ProductDict items s)"
    unfolding h'_def using l by (simp add: lookup_append [OF p])
  have r0: "read_product h' items s = pd"
    unfolding h'_def pd_def by (rule read_product_append [OF s])
  have r1: "read_product (h' @ [RowDict (initial_row pd)]) items s = pd"
    unfolding h'_def pd_def using read_product_append [OF s, of "RowList rs # map RowDict R @ [RowDict (initial_row (read_product h items s))]" items]
    by simp
  have len: "length h' = Suc (length h) + length R"
    by (simp add: h'_def)
  have f2: "fold (set_spec (length h')) (specifications pd) (h' @ [RowDict (initial_row pd)])
      = h' @ [RowDict (build_row pd)]"
    by (simp only: fold_set_spec_row build_row_def)
  have f3: "append_row (length h) (length h') (h' @ [RowDict (build_row pd)])
      = h @ RowList (rs @ [length h']) # map RowDict (R @ [build_row pd])"
    using append_row_rows [of h "length h'" rs "map RowDict R @ [RowDict (build_row pd)]"]
    by (simp add: h'_def)
  have rs': "rs @ [length h'] = [Suc (length h) ..< Suc (length h) + length (R @ [build_row pd])]"
    by (simp add: rs_def len)
  have step: "flatten (length h) (p # ps) h'
      = flatten (length h) ps
          (h @ RowList [Suc (length h) ..< Suc (length h) + length (R @ [build_row pd])]
             # map RowDict (R @ [build_row pd]))"
    by (simp add: l' alloc_def Let_def r0 r1 f2 f3 rs')
  have pa: "the (product_at h p) = pd"
    by (simp add: product_at_def l pd_def)
  have ih: "flatten (length h) ps
          (h @ RowList [Suc (length h) ..< Suc (length h) + length (R @ [build_row pd])]
             # map RowDict (R @ [build_row pd]))
      = (True, h @ RowList [Suc (length h) ..< Suc (length h) + length (R @ [build_row pd]) + length ps]
                     # map RowDict ((R @ [build_row pd]) @ map (\<lambda>p. build_row (the (product_at h p))) ps))"
    by (rule Cons.IH) (use Cons.prems in simp)
  show ?case
    unfolding h'_def [symmetric] rs_def [symmetric]
    by (simp only: step ih) (simp add: pa)
qed

lemma rows_at_rows:
  "rows_at (h @ RowList [Suc (length h) ..< Suc (length h) + length R] # map RowDict R) (length h)
     = R"
proof -
  define h' where "h' = h @ RowList [Suc (length h) ..< Suc (length h) + length R] # map RowDict R"
  have r: "(case lookup h' (i + Suc (length h)) of Some (RowDict row) \<Rightarrow> row | _ \<Rightarrow> []) = R ! i"
    if "i < length R" for i
  proof -
    have e: "i + Suc (length h) = length h + Suc i" by simp
    have "h' ! (length h + Suc i) = RowDict (R ! i)"
      unfolding h'_def nth_append_length_plus using that by simp
    moreover have "length h + Suc i < length h'"
      using that by (simp add: h'_def)
    ultimately have "lookup h' (length h + Suc i) = Some (RowDict (R ! i))"
      by (simp only: lookup_def if_True)
    then show ?thesis
      by (simp only: e option.case object.case)
  qed
  have u: "[Suc (length h) ..< Suc (length h) + length R]
      = map (\<lambda>i. i + Suc (length h)) [0 ..< length R]"
    by (metis map_add_upt add.commute)
  have "map (\<lambda>r. case lookup h' r of Some (RowDict row) \<Rightarrow> row | _ \<Rightarrow> [])
          [Suc (length h) ..< Suc (length h) + length R]
      = map (\<lambda>i. R ! i) [0 ..< length R]"
    unfolding u map_map comp_def
  proof (rule map_cong [OF refl])
    fix i assume "i \<in> set [0 ..< length R]"
    then have "i < length R" by simp
    then show "(case lookup h' (i + Suc (length h)) of Some (RowDict row) \<Rightarrow> row | _ \<Rightarrow> [])
        = R ! i"
      by (rule r)
  qed
  also have "\<dots> = R" by (rule map_nth)
  finally have m: "map (\<lambda>r. case lookup h' r of Some (RowDict row) \<Rightarrow> row | _ \<Rightarrow> [])
          [Suc (length h) ..< Suc (length h) + length R] = R" .
  have l: "lookup h' (length h) = Some (RowList [Suc (length h) ..< Suc (length h) + length R])"
    unfolding h'_def by (rule lookup_length)
  have "rows_at h' (length h) = R"
    by (simp only: rows_at_def l option.case object.case m)
  then show ?thesis by (simp only: h'_def)
qed

lemma file_name_at_products:
  assumes "\<forall>p \<in> set ps. \<exists>items s. lookup h p = Some (ProductDict items s) \<and> s < length h"
  shows "file_name_at h ps filename stamp
     = Some (case filename of
               Some (c # cs) \<Rightarrow> c # cs
             | _ \<Rightarrow> default_filename (map (\<lambda>p. the (product_at h p)) ps) stamp)"
proof -
  have d: "(case ps of
             [p] \<Rightarrow> map_option (\<lambda>product. default_filename [product] stamp) (product_at h p)
           | _ \<Rightarrow> Some (''products_'' @ stamp @ ''.csv''))
       = Some (default_filename (map (\<lambda>p. the (product_at h p)) ps) stamp)"
  proof (cases ps)
    case Nil
    then show ?thesis by (simp add: default_filename_def)
  next
    case (Cons p qs)
    show ?thesis
    proof (cases qs)
      case Nil
      from assms Cons obtain items s where "lookup h p = Some (ProductDict items s)" by auto
      then have "product_at h p = Some (the (product_at h p))"
        by (simp add: product_at_def)
      then obtain x where x: "product_at h p = Some x" ..
      from Cons Nil have "ps = [p]" by simp
      then show ?thesis by (simp add: x)
    next
      case (Cons q rs)
      with \<open>ps = p # qs\<close> show ?thesis by (simp add: default_filename_def)
    qed
  qed
  show ?thesis
    unfolding file_name_at_def d
    by (simp split: option.splits list.splits)
qed

lemma save_to_csv_store_table:
  assumes a: "lookup h a = Some (ProductList ps)"
    and ps: "\<forall>p \<in> set ps. \<exists>items s. lookup h p = Some (ProductDict items s) \<and> s < length h"
  shows "fst (save_to_csv_store a filename stamp h)
     = save_to_csv (Many (map (\<lambda>p. the (product_at h p)) ps)) filename stamp"
proof (cases "ps = []")
  case True
  with a show ?thesis
    by (simp add: save_to_csv_store_def save_to_csv_def)
next
  case False
  define rows where "rows = map (\<lambda>p. build_row (the (product_at h p))) ps"
  define h2 where "h2 = h @ RowList [Suc (length h) ..< Suc (length h) + length rows]
                       # map RowDict rows"
  have "flatten (length h) ps (h @ RowList [Suc (length h) ..< Suc (length h) + length ([] :: row list)]
                       # map RowDict [])
      = (True, h @ RowList [Suc (length h) ..< Suc (length h) + length ([] :: row list) + length ps]
                     # map RowDict ([] @ map (\<lambda>p. build_row (the (product_at h p))) ps))"
    by (rule flatten_products [OF ps])
  then have fl: "flatten (length h) ps (h @ [RowList []]) = (True, h2)"
    by (simp add: rows_def h2_def)
  have ra: "rows_at h2 (length h) = rows"
    unfolding h2_def by (rule rows_at_rows)
  have m: "map build_row (map (\<lambda>p. the (product_at h p)) ps) = rows"
    by (simp add: rows_def)
  show ?thesis
    using False
    by (simp add: save_to_csv_store_def save_to_csv_def a file_name_at_products [OF ps]
        alloc_def fl ra m Let_def rows_def comp_def)
qed

text \<open>
  Claim C9. After \<open>save_to_csv\<close>, whatever its argument and its result, every object
  that was in the store before the call is in it unchanged, at its address: the product
  dictionaries and their specification dictionaries among them. So every product
  dictionary of the store whose \<open>specifications\<close> entry refers to an object of the store
  reads after the call as before it, field by field and specification by specification.
\<close>

theorem save_to_csv_store_unchanged:
  "take (length h) (snd (save_to_csv_store a filename stamp h)) = h
   \<and> (\<forall>p items s. lookup h p = Some (ProductDict items s) \<and> s < length h \<longrightarrow>
         product_at (snd (save_to_csv_store a filename stamp h)) p = product_at h p)"
proof (intro conjI allI impI)
  show t: "take (length h) (snd (save_to_csv_store a filename stamp h)) = h"
    by (rule save_to_csv_store_frame)
  fix p items s
  assume "lookup h p = Some (ProductDict items s) \<and> s < length h"
  then show "product_at (snd (save_to_csv_store a filename stamp h)) p = product_at h p"
    using product_at_take [OF t] by blast
qed

text \<open>
  Claim C9 at the example store. The call writes a table with the column \<open>Volume\<close> and
  makes three objects; the value \<open>x\<close> is appended to the cell \<open>URL\<close> of the row, and the
  product at address 1 still has its two specifications.
\<close>

theorem save_to_csv_store_unchanged_witness:
  "lookup beaker_store 1
     = Some (ProductDict
        [(''product_code'', Some ''B250''), (''product_name'', Some ''Beaker 250 mL''),
         (''model_number'', None), (''description'', None), (''price'', Some ''12.50''),
         (''currency'', Some ''USD''), (''availability'', None),
         (''url'', Some ''https://www.avantorsciences.com/us/en/product/1'')] 2)
   \<and> 2 < length beaker_store
   \<and> map_option header (fst (save_to_csv_store 0 None ''0'' beaker_store))
       = Some (standard_fields @ [''Volume''])
   \<and> length (snd (save_to_csv_store 0 None ''0'' beaker_store)) = 6
   \<and> take 3 (snd (save_to_csv_store 0 None ''0'' beaker_store)) = beaker_store
   \<and> map_option specifications
        (product_at (snd (save_to_csv_store 0 None ''0'' beaker_store)) 1)
       = Some [(''Volume'', ''250 mL''), (''URL'', ''x'')]"
proof -
  note t = save_to_csv_store_unchanged [of beaker_store 0 None "''0''"]
  have l: "lookup beaker_store 1
     = Some (ProductDict
        [(''product_code'', Some ''B250''), (''product_name'', Some ''Beaker 250 mL''),
         (''model_number'', None), (''description'', None), (''price'', Some ''12.50''),
         (''currency'', Some ''USD''), (''availability'', None),
         (''url'', Some ''https://www.avantorsciences.com/us/en/product/1'')] 2)"
    by code_simp
  have n: "2 < length beaker_store" "length beaker_store = 3"
    by code_simp+
  have hd: "map_option header (fst (save_to_csv_store 0 None ''0'' beaker_store))
       = Some (standard_fields @ [''Volume''])"
    by code_simp
  have len: "length (snd (save_to_csv_store 0 None ''0'' beaker_store)) = 6"
    by code_simp
  have sp: "map_option specifications (product_at beaker_store 1)
       = Some [(''Volume'', ''250 mL''), (''URL'', ''x'')]"
    by code_simp
  from t n have tk: "take 3 (snd (save_to_csv_store 0 None ''0'' beaker_store)) = beaker_store"
    by simp
  from t l n have "product_at (snd (save_to_csv_store 0 None ''0'' beaker_store)) 1
      = product_at beaker_store 1"
    by blast
  with sp have sp': "map_option specifications
        (product_at (snd (save_to_csv_store 0 None ''0'' beaker_store)) 1)
       = Some [(''Volume'', ''250 mL''), (''URL'', ''x'')]"
    by simp
  from l n(1) hd len tk sp' show ?thesis
    by (intro conjI)
qed

end
